theory Spec2Isabelle
  imports Main
begin

section \<open>Strings and paths of the Go standard library\<close>

text \<open>
  The organizer works on Go strings, modelled as byte lists (\<open>string\<close>). The functions of
  this section are the Unix versions of the standard-library functions that
  \<open>internal/organizer/organizer.go\<close> calls: \<open>strings.HasPrefix\<close>, \<open>strings.HasSuffix\<close>,
  \<open>strings.TrimSuffix\<close>, \<open>strings.ToLower\<close>, \<open>filepath.Ext\<close>, \<open>filepath.Base\<close>,
  \<open>filepath.Clean\<close>, \<open>filepath.Dir\<close> and \<open>filepath.Join\<close>. \<open>ToLower\<close> maps the ASCII
  letters only; a path with upper-case letters outside ASCII is outside the model.
\<close>

definition HasPrefix :: "string \<Rightarrow> string \<Rightarrow> bool" where
  "HasPrefix s pre = (length pre \<le> length s \<and> take (length pre) s = pre)"

definition HasSuffix :: "string \<Rightarrow> string \<Rightarrow> bool" where
  "HasSuffix s suf = (length suf \<le> length s \<and> drop (length s - length suf) s = suf)"

definition TrimSuffix :: "string \<Rightarrow> string \<Rightarrow> string" where
  "TrimSuffix s suf = (if HasSuffix s suf then take (length s - length suf) s else s)"

definition toLowerByte :: "char \<Rightarrow> char" where
  "toLowerByte c =
     (let n = (of_char c :: nat) in if 65 \<le> n \<and> n \<le> 90 then char_of (n + 32) else c)"

definition ToLower :: "string \<Rightarrow> string" where
  "ToLower s = map toLowerByte s"

definition IsPathSeparator :: "char \<Rightarrow> bool" where
  "IsPathSeparator c = (c = CHR ''/'')"

text \<open>
  \<open>filepath.Ext\<close> scans the path from its last byte towards the front, stops at a
  separator, and returns the suffix that starts at the first dot it meets. \<open>extScan\<close> is
  that loop; its first argument is the part not yet scanned, reversed, and its second the
  bytes already passed.
\<close>

fun extScan :: "string \<Rightarrow> string \<Rightarrow> string" where
  "extScan [] seen = []"
| "extScan (c # front) seen =
     (if IsPathSeparator c then []
      else if c = CHR ''.'' then c # seen
      else extScan front (c # seen))"

definition Ext :: "string \<Rightarrow> string" where
  "Ext path = extScan (rev path) []"

definition Base :: "string \<Rightarrow> string" where
  "Base path =
     (if path = [] then ''.''
      else
        let stripped = rev (dropWhile IsPathSeparator (rev path));
            last_elem = rev (takeWhile (\<lambda>c. \<not> IsPathSeparator c) (rev stripped))
        in if last_elem = [] then ''/'' else last_elem)"

text \<open>
  \<open>filepath.Clean\<close>: \<open>cleanLoop rooted r out dotdot\<close> is the main loop of the library
  function, with \<open>r\<close> the input still to read, \<open>out\<close> the output buffer and \<open>dotdot\<close>
  the index in \<open>out\<close> below which a \<open>..\<close> element may not remove anything.
\<close>

fun backtrack :: "string \<Rightarrow> nat \<Rightarrow> nat \<Rightarrow> nat" where
  "backtrack out dotdot 0 = 0"
| "backtrack out dotdot (Suc w) =
     (if Suc w > dotdot \<and> \<not> IsPathSeparator (out ! Suc w) then backtrack out dotdot w
      else Suc w)"

function cleanLoop :: "bool \<Rightarrow> string \<Rightarrow> string \<Rightarrow> nat \<Rightarrow> string" where
  "cleanLoop rooted [] out dotdot = out"
| "cleanLoop rooted (c # cs) out dotdot =
     (if IsPathSeparator c then cleanLoop rooted cs out dotdot
      else if c = CHR ''.'' \<and> (cs = [] \<or> IsPathSeparator (hd cs)) then
        cleanLoop rooted cs out dotdot
      else if c = CHR ''.'' \<and> hd cs = CHR ''.'' \<and> (tl cs = [] \<or> IsPathSeparator (hd (tl cs))) then
        (if length out > dotdot then
           cleanLoop rooted (tl cs) (take (backtrack out dotdot (length out - 1)) out) dotdot
         else if \<not> rooted then
           (let out' = (if out = [] then out else out @ ''/'') @ ''..''
            in cleanLoop rooted (tl cs) out' (length out'))
         else cleanLoop rooted (tl cs) out dotdot)
      else
        (let out' = (if rooted \<and> length out \<noteq> 1 \<or> \<not> rooted \<and> length out \<noteq> 0
                     then out @ ''/'' else out)
         in cleanLoop rooted (dropWhile (\<lambda>x. \<not> IsPathSeparator x) cs)
              (out' @ c # takeWhile (\<lambda>x. \<not> IsPathSeparator x) cs) dotdot))"
  by pat_completeness auto
termination
proof (relation "measure (\<lambda>(rooted, r, out, dotdot). length r)")
  show "wf (measure (\<lambda>(rooted, r, out, dotdot). length r))" by simp
next
  fix rooted :: bool and c :: char and cs out :: string and dotdot :: nat
  show "((rooted, cs, out, dotdot), rooted, c # cs, out, dotdot)
          \<in> measure (\<lambda>(rooted, r, out, dotdot). length r)"
    by simp
  show "((rooted, cs, out, dotdot), rooted, c # cs, out, dotdot)
          \<in> measure (\<lambda>(rooted, r, out, dotdot). length r)"
    by simp
next
  fix rooted :: bool and c :: char and cs out :: string and dotdot :: nat
  show "((rooted, tl cs, take (backtrack out dotdot (length out - 1)) out, dotdot),
          rooted, c # cs, out, dotdot) \<in> measure (\<lambda>(rooted, r, out, dotdot). length r)"
    by simp
next
  fix rooted :: bool and c :: char and cs out x :: string and dotdot :: nat
  show "((rooted, tl cs, x, length x), rooted, c # cs, out, dotdot)
          \<in> measure (\<lambda>(rooted, r, out, dotdot). length r)"
    by simp
next
  fix rooted :: bool and c :: char and cs out :: string and dotdot :: nat
  show "((rooted, tl cs, out, dotdot), rooted, c # cs, out, dotdot)
          \<in> measure (\<lambda>(rooted, r, out, dotdot). length r)"
    by simp
next
  fix rooted :: bool and c :: char and cs out x :: string and dotdot :: nat
  show "((rooted, dropWhile (\<lambda>x. \<not> IsPathSeparator x) cs,
           x @ c # takeWhile (\<lambda>x. \<not> IsPathSeparator x) cs, dotdot),
          rooted, c # cs, out, dotdot) \<in> measure (\<lambda>(rooted, r, out, dotdot). length r)"
    by (simp add: less_Suc_eq_le length_dropWhile_le)
qed

definition Clean :: "string \<Rightarrow> string" where
  "Clean path =
     (if path = [] then ''.''
      else
        let rooted = IsPathSeparator (hd path);
            out = (if rooted then cleanLoop True (tl path) ''/'' 1
                   else cleanLoop False path [] 0)
        in if out = [] then ''.'' else out)"

definition Dir :: "string \<Rightarrow> string" where
  "Dir path = Clean (rev (dropWhile (\<lambda>c. \<not> IsPathSeparator c) (rev path)))"

fun joinSep :: "string list \<Rightarrow> string" where
  "joinSep [] = []"
| "joinSep [e] = e"
| "joinSep (e # es) = e @ ''/'' @ joinSep es"

definition Join :: "string list \<Rightarrow> string" where
  "Join elem =
     (case dropWhile (\<lambda>e. e = []) elem of
        [] \<Rightarrow> []
      | es \<Rightarrow> Clean (joinSep es))"


section \<open>Data model\<close>

text \<open>
  The structs of \<open>organizer.go\<close>. Go's \<open>int\<close> counters are \<open>int\<close>: they count
  directory entries and never come near 64 bits. \<open>Config\<close> and \<open>FileMove\<close> both have a
  field \<open>DryRun\<close>; the one of \<open>Config\<close> is \<open>cfgDryRun\<close> here.
\<close>

record Config =
  SourceDir :: string
  DestDir :: string
  cfgDryRun :: bool
  Recursive :: bool
  Workers :: int
  CategoryMappings :: "string \<rightharpoonup> string"
  Quiet :: bool

record FileMove =
  SourcePath :: string
  DestPath :: string
  DryRun :: bool

record ProgressUpdate =
  Moved :: int
  Errored :: int

definition DefaultCategoryMappings :: "string \<rightharpoonup> string" where
  "DefaultCategoryMappings = map_of
     [(''.jpg'', ''Images''), (''.jpeg'', ''Images''), (''.png'', ''Images''),
      (''.gif'', ''Images''), (''.bmp'', ''Images''), (''.tiff'', ''Images''),
      (''.webp'', ''Images''), (''.heic'', ''Images''),
      (''.pdf'', ''Documents''), (''.doc'', ''Documents''), (''.docx'', ''Documents''),
      (''.ppt'', ''Documents''), (''.pptx'', ''Documents''), (''.xls'', ''Documents''),
      (''.xlsx'', ''Documents''), (''.txt'', ''Documents''), (''.rtf'', ''Documents''),
      (''.odt'', ''Documents''),
      (''.mp4'', ''Videos''), (''.mov'', ''Videos''), (''.avi'', ''Videos''),
      (''.mkv'', ''Videos''), (''.webm'', ''Videos''),
      (''.mp3'', ''Audio''), (''.wav'', ''Audio''), (''.flac'', ''Audio''),
      (''.aac'', ''Audio''),
      (''.zip'', ''Archives''), (''.rar'', ''Archives''), (''.7z'', ''Archives''),
      (''.tar'', ''Archives''), (''.gz'', ''Archives''),
      (''.exe'', ''Executables''), (''.dmg'', ''Executables''), (''.app'', ''Executables''),
      (''.deb'', ''Executables''), (''.rpm'', ''Executables''),
      (''.go'', ''Code''), (''.js'', ''Code''), (''.ts'', ''Code''), (''.py'', ''Code''),
      (''.java'', ''Code''), (''.c'', ''Code''), (''.cpp'', ''Code''), (''.h'', ''Code''),
      (''.hpp'', ''Code''), (''.html'', ''Code''), (''.css'', ''Code''),
      (''.json'', ''Code''), (''.xml'', ''Code''), (''.md'', ''Code'')]"

text \<open>
  Category resolution is written inline in the walk callback of \<open>OrganizeFiles\<close>
  (lines 214 to 220): the extension of the path is lowercased and looked up, and a miss
  gives \<open>Others\<close>.
\<close>

definition resolveCategory :: "(string \<rightharpoonup> string) \<Rightarrow> string \<Rightarrow> string" where
  "resolveCategory mappings path =
     (let ext = ToLower (Ext path)
      in case mappings ext of Some category \<Rightarrow> category | None \<Rightarrow> ''Others'')"

section \<open>The clock and the operating system\<close>

text \<open>
  \<open>time.Now().Format("20060102_150405")\<close>: the fields of the current time, each
  in decimal and padded with zeros to its width (four for the year, two for the others).
\<close>

record gotime =
  Year :: nat
  Month :: nat
  Day :: nat
  Hour :: nat
  Minute :: nat
  Second :: nat

fun decimal :: "nat \<Rightarrow> string" where
  "decimal n = (if n < 10 then [char_of (48 + n)] else decimal (n div 10) @ [char_of (48 + n mod 10)])"

declare decimal.simps [simp del]

definition appendInt :: "nat \<Rightarrow> nat \<Rightarrow> string" where
  "appendInt x width = replicate (width - length (decimal x)) (CHR ''0'') @ decimal x"

definition Format_20060102_150405 :: "gotime \<Rightarrow> string" where
  "Format_20060102_150405 t =
     appendInt (Year t) 4 @ appendInt (Month t) 2 @ appendInt (Day t) 2 @ ''_'' @
     appendInt (Hour t) 2 @ appendInt (Minute t) 2 @ appendInt (Second t) 2"

text \<open>
  The file system is outside the program. \<open>moveFile\<close> reaches it through \<open>os.Stat\<close>,
  \<open>os.MkdirAll\<close> and \<open>os.Rename\<close>; the model takes these calls as an environment over
  a state \<open>'fs\<close> of the file system, so every theorem below holds for whatever the
  operating system answers. A call either returns or raises a panic (\<open>Panic\<close>), which is
  how an internal fault enters \<open>moveFile\<close>. An \<open>error\<close> value is its message
  (\<open>None\<close> is \<open>nil\<close>). \<open>os.Stat\<close> answers with \<open>err == nil\<close> (\<open>StatOk\<close>), with an
  error for which \<open>os.IsNotExist\<close> holds (\<open>StatNotExist\<close>), or with another error.
\<close>

datatype 'a go = Ret 'a | Panic string

datatype stat_result = StatOk | StatNotExist | StatError string

record 'fs os_env =
  os_Stat :: "'fs \<Rightarrow> string \<Rightarrow> stat_result go"
  os_MkdirAll :: "'fs \<Rightarrow> string \<Rightarrow> (string option \<times> 'fs) go"
  os_Rename :: "'fs \<Rightarrow> string \<Rightarrow> string \<Rightarrow> (string option \<times> 'fs) go"
  time_Now :: "'fs \<Rightarrow> gotime"


section \<open>The move executor\<close>

text \<open>
  \<open>moveFile\<close> (lines 112 to 175). A run of it yields the state of the file system it
  leaves, the values it sent on \<open>progressChan\<close> in order, the lines it printed (without
  colour codes) and the error it returned. The body is split at its three comments:
  \<open>ensureDestDir\<close> is lines 127 to 140, \<open>resolveCollision\<close> lines 142 to 155 and
  \<open>performMove\<close> lines 157 to 174. A part of the body ends the function with a
  \<open>body_exit\<close>: a \<open>return\<close> with its error, or a panic on its way to the deferred function.
\<close>

datatype body_exit = Returned "string option" | Panicked string

record 'fs move_run =
  fs_after :: 'fs
  sent :: "ProgressUpdate list"
  printed :: "string list"
  returned :: "string option"

definition ensureDestDir ::
  "'fs os_env \<Rightarrow> FileMove \<Rightarrow> 'fs \<Rightarrow> 'fs \<times> ProgressUpdate list \<times> string list \<times> body_exit option"
where
  "ensureDestDir env fm s =
     (let destDir = Dir (DestPath fm) in
      case os_Stat env s destDir of
        Panic r \<Rightarrow> (s, [], [], Some (Panicked r))
      | Ret st \<Rightarrow>
          if st = StatNotExist then
            (if DryRun fm then
               (s, [], [''DRY RUN: Would create directory: '' @ destDir], None)
             else
               (case os_MkdirAll env s destDir of
                  Panic r \<Rightarrow> (s, [], [], Some (Panicked r))
                | Ret (Some err, s1) \<Rightarrow>
                    (s1, [\<lparr>Moved = 0, Errored = 1\<rparr>], [],
                     Some (Returned (Some (''failed to create destination directory '' @
                        [CHR 0x27] @ destDir @ [CHR 0x27] @ '': '' @ err))))
                | Ret (None, s1) \<Rightarrow>
                    (s1, [], [''CREATED: Created directory: '' @ destDir], None)))
          else (s, [], [], None))"

definition collisionPath :: "FileMove \<Rightarrow> string \<Rightarrow> string" where
  "collisionPath fm timestamp =
     (let destDir = Dir (DestPath fm);
          ext = Ext (DestPath fm);
          name = TrimSuffix (Base (DestPath fm)) ext
      in Join [destDir, name @ ''_'' @ timestamp @ ext])"

definition resolveCollision ::
  "'fs os_env \<Rightarrow> FileMove \<Rightarrow> 'fs \<Rightarrow> string \<times> ProgressUpdate list \<times> string list \<times> body_exit option"
where
  "resolveCollision env fm s =
     (case os_Stat env s (DestPath fm) of
        Panic r \<Rightarrow> (DestPath fm, [], [], Some (Panicked r))
      | Ret StatOk \<Rightarrow>
          (let timestamp = Format_20060102_150405 (time_Now env s);
               finalDestPath = collisionPath fm timestamp
           in (finalDestPath, [],
               [''COLLISION: Renaming '' @ [CHR 0x27] @ Base (DestPath fm) @ [CHR 0x27] @
                '' to '' @ [CHR 0x27] @ Base finalDestPath @ [CHR 0x27]], None))
      | Ret StatNotExist \<Rightarrow> (DestPath fm, [], [], None)
      | Ret (StatError err) \<Rightarrow>
          (DestPath fm, [\<lparr>Moved = 0, Errored = 1\<rparr>], [],
           Some (Returned (Some (''error checking existence of '' @
              [CHR 0x27] @ DestPath fm @ [CHR 0x27] @ '': '' @ err)))))"

definition moveLine :: "string \<Rightarrow> FileMove \<Rightarrow> string \<Rightarrow> string" where
  "moveLine what fm finalDestPath =
     what @ [CHR 0x27] @ SourcePath fm @ [CHR 0x27] @ '' to '' @
     [CHR 0x27] @ finalDestPath @ [CHR 0x27]"

definition performMove ::
  "'fs os_env \<Rightarrow> FileMove \<Rightarrow> bool \<Rightarrow> string \<Rightarrow> 'fs \<Rightarrow>
     'fs \<times> ProgressUpdate list \<times> string list \<times> body_exit"
where
  "performMove env fm quiet finalDestPath s =
     (if DryRun fm then
        (s, [\<lparr>Moved = 1, Errored = 0\<rparr>],
         (if \<not> quiet then [moveLine ''DRY RUN: Would move '' fm finalDestPath] else []),
         Returned None)
      else
        (case os_Rename env s (SourcePath fm) finalDestPath of
           Panic r \<Rightarrow> (s, [], [], Panicked r)
         | Ret (Some err, s1) \<Rightarrow>
             (s1, [\<lparr>Moved = 0, Errored = 1\<rparr>], [],
              Returned (Some (''failed to move '' @ [CHR 0x27] @ SourcePath fm @ [CHR 0x27] @
                 '' to '' @ [CHR 0x27] @ finalDestPath @ [CHR 0x27] @ '': '' @ err)))
         | Ret (None, s1) \<Rightarrow>
             (s1, [\<lparr>Moved = 1, Errored = 0\<rparr>],
              (if \<not> quiet then [moveLine ''MOVED: Moved '' fm finalDestPath] else []),
              Returned None)))"

definition moveFile_body ::
  "'fs os_env \<Rightarrow> FileMove \<Rightarrow> bool \<Rightarrow> 'fs \<Rightarrow>
     'fs \<times> ProgressUpdate list \<times> string list \<times> body_exit"
where
  "moveFile_body env fm quiet s =
     (case ensureDestDir env fm s of
        (s1, out1, pr1, Some ex) \<Rightarrow> (s1, out1, pr1, ex)
      | (s1, out1, pr1, None) \<Rightarrow>
          (case resolveCollision env fm s1 of
             (finalDestPath, out2, pr2, Some ex) \<Rightarrow> (s1, out1 @ out2, pr1 @ pr2, ex)
           | (finalDestPath, out2, pr2, None) \<Rightarrow>
               (case performMove env fm quiet finalDestPath s1 of
                  (s2, out3, pr3, ex) \<Rightarrow> (s2, out1 @ out2 @ out3, pr1 @ pr2 @ pr3, ex))))"

text \<open>
  The deferred function (lines 113 to 119) runs when the body is left: after a panic it
  prints, sends \<open>{Errored: 1}\<close> and lets \<open>moveFile\<close> return \<open>nil\<close>.
\<close>

definition moveFile :: "'fs os_env \<Rightarrow> FileMove \<Rightarrow> bool \<Rightarrow> 'fs \<Rightarrow> 'fs move_run" where
  "moveFile env fm quiet s =
     (case moveFile_body env fm quiet s of
        (s', out, pr, Returned err) \<Rightarrow>
          \<lparr>fs_after = s', sent = out, printed = pr, returned = err\<rparr>
      | (s', out, pr, Panicked r) \<Rightarrow>
          \<lparr>fs_after = s', sent = out @ [\<lparr>Moved = 0, Errored = 1\<rparr>],
           printed = pr @ [''Recovered from panic in moveFile: '' @ r], returned = None\<rparr>)"

text \<open>
  The worker pool of \<open>OrganizeFiles\<close> (lines 256 to 279): every worker takes the next
  \<open>FileMove\<close> from the queue and calls \<open>moveFile\<close> on it, ignoring the error it returns.
  The model drains the queue in its order, one call after the other, which is the pool
  with one worker. Other workers reach a call of \<open>moveFile\<close> only through what the
  file system answers, and the theorems about one call hold for every answer.
\<close>

fun dispatch ::
  "'fs os_env \<Rightarrow> bool \<Rightarrow> FileMove list \<Rightarrow> 'fs \<Rightarrow> 'fs \<times> ProgressUpdate list \<times> string list"
where
  "dispatch env quiet [] s = (s, [], [])"
| "dispatch env quiet (fm # queue) s =
     (let run = moveFile env fm quiet s in
      case dispatch env quiet queue (fs_after run) of
        (s', out, pr) \<Rightarrow> (s', sent run @ out, printed run @ pr))"

text \<open>
  The progress collector of \<open>main\<close>: it adds the fields of every update it receives to
  \<open>totalProcessed\<close> and \<open>totalErrors\<close>.
\<close>

fun collect :: "ProgressUpdate list \<Rightarrow> int \<times> int \<Rightarrow> int \<times> int" where
  "collect [] totals = totals"
| "collect (update # rest) (totalProcessed, totalErrors) =
     collect rest (totalProcessed + Moved update, totalErrors + Errored update)"


section \<open>Walking the source tree\<close>

text \<open>
  \<open>filepath.WalkDir\<close> of the standard library, over the tree that its \<open>os.Lstat\<close> and
  \<open>os.ReadDir\<close> calls see: an entry is a directory, with the entries \<open>ReadDir\<close> lists
  (sorted by name) and the error \<open>ReadDir\<close> gives with them, or anything else
  (\<open>File\<close>: a regular file, a symbolic link, a device). \<open>Lstat\<close> of the root may fail.
  The function it calls at every entry returns \<open>nil\<close>, \<open>SkipDir\<close> or another error;
  \<open>WPanic\<close> stands for a panic inside that function, which ends the walk like an error.
\<close>

datatype entry = File | Directory "(string \<times> entry) list" "string option"

datatype root = LstatFails string | Root entry

fun IsDir :: "entry \<Rightarrow> bool" where
  "IsDir File = False"
| "IsDir (Directory dirs err) = True"

datatype walk_ret = WNil | WSkipDir | WErr string | WPanic string

fun walkDir ::
  "(string \<Rightarrow> entry option \<Rightarrow> string option \<Rightarrow> 's \<Rightarrow> walk_ret \<times> 's) \<Rightarrow>
     string \<Rightarrow> entry \<Rightarrow> 's \<Rightarrow> walk_ret \<times> 's"
and walkEntries ::
  "(string \<Rightarrow> entry option \<Rightarrow> string option \<Rightarrow> 's \<Rightarrow> walk_ret \<times> 's) \<Rightarrow>
     string \<Rightarrow> (string \<times> entry) list \<Rightarrow> 's \<Rightarrow> walk_ret \<times> 's"
where
  "walkDir walkDirFn path File s = walkDirFn path (Some File) None s"
| "walkDir walkDirFn path (Directory dirs rerr) s =
     (case walkDirFn path (Some (Directory dirs rerr)) None s of
        (err, s1) \<Rightarrow>
          if err \<noteq> WNil then ((if err = WSkipDir then WNil else err), s1)
          else
            (case rerr of
               None \<Rightarrow> walkEntries walkDirFn path dirs s1
             | Some e \<Rightarrow>
                 (case walkDirFn path (Some (Directory dirs rerr)) (Some e) s1 of
                    (err2, s2) \<Rightarrow>
                      if err2 \<noteq> WNil then ((if err2 = WSkipDir then WNil else err2), s2)
                      else walkEntries walkDirFn path dirs s2)))"
| "walkEntries walkDirFn path [] s = (WNil, s)"
| "walkEntries walkDirFn path ((name, d1) # rest) s =
     (case walkDir walkDirFn (Join [path, name]) d1 s of
        (err, s1) \<Rightarrow>
          if err \<noteq> WNil then ((if err = WSkipDir then WNil else err), s1)
          else walkEntries walkDirFn path rest s1)"

definition WalkDir ::
  "string \<Rightarrow> root \<Rightarrow> (string \<Rightarrow> entry option \<Rightarrow> string option \<Rightarrow> 's \<Rightarrow> walk_ret \<times> 's) \<Rightarrow>
     's \<Rightarrow> walk_ret \<times> 's"
where
  "WalkDir rootPath r fn s =
     (case (case r of
              LstatFails e \<Rightarrow> fn rootPath None (Some e) s
            | Root info \<Rightarrow> walkDir fn rootPath info s) of
        (err, s1) \<Rightarrow> ((if err = WSkipDir then WNil else err), s1))"

section \<open>The scan\<close>

text \<open>
  The variables that the walk callback of \<open>OrganizeFiles\<close> updates: the named results
  \<open>totalScanned\<close>, \<open>totalSkipped\<close> and \<open>scanErr\<close>, and the list \<open>filesToMove\<close>.
  \<open>visited\<close> is not a variable of the code: it lists the arguments of every call of the
  callback (the path, whether the entry is a directory, the error), so that the
  directories and the failing entries of a scan can be counted.
\<close>

record scan_state =
  totalScanned :: int
  totalSkipped :: int
  scanErr :: "string option"
  filesToMove :: "FileMove list"
  visited :: "(string \<times> bool option \<times> string option) list"

definition scanStart :: scan_state where
  "scanStart = \<lparr>totalScanned = 0, totalSkipped = 0, scanErr = None, filesToMove = [],
                 visited = []\<rparr>"

text \<open>
  The callback (lines 198 to 239). With no error and no entry, \<open>d.IsDir()\<close> is a call on
  a nil interface, a panic.
\<close>

definition walkFn ::
  "Config \<Rightarrow> string \<Rightarrow> entry option \<Rightarrow> string option \<Rightarrow> scan_state \<Rightarrow> walk_ret \<times> scan_state"
where
  "walkFn cfg path d err st =
     (let st1 = st\<lparr>totalScanned := totalScanned st + 1,
                    visited := visited st @ [(path, map_option IsDir d, err)]\<rparr>
      in case err of
           Some e \<Rightarrow> (WNil, st1\<lparr>scanErr := Some (''encountered error during scan: '' @ e)\<rparr>)
         | None \<Rightarrow>
             (case d of
                None \<Rightarrow> (WPanic ''invalid memory address or nil pointer dereference'', st1)
              | Some ent \<Rightarrow>
                  if IsDir ent then
                    (if \<not> Recursive cfg \<and> path \<noteq> SourceDir cfg then (WSkipDir, st1)
                     else (WNil, st1))
                  else
                    (let fileName = Base path;
                         category = resolveCategory (CategoryMappings cfg) path
                     in if HasPrefix path (DestDir cfg) then
                          (WNil, st1\<lparr>totalSkipped := totalSkipped st1 + 1\<rparr>)
                        else
                          (let targetCategoryDir = Join [DestDir cfg, category];
                               targetFilePath = Join [targetCategoryDir, fileName]
                           in (WNil, st1\<lparr>filesToMove := filesToMove st1 @
                                 [\<lparr>SourcePath = path, DestPath = targetFilePath,
                                   DryRun = cfgDryRun cfg\<rparr>]\<rparr>)))))"

definition scanPhase :: "Config \<Rightarrow> root \<Rightarrow> walk_ret \<times> scan_state" where
  "scanPhase cfg r = WalkDir (SourceDir cfg) r (walkFn cfg) scanStart"

section \<open>OrganizeFiles\<close>

text \<open>
  \<open>OrganizeFiles\<close> (lines 179 to 283) returns its four results; the model adds the
  state of the file system it leaves and the updates sent on \<open>progressChan\<close>. A panic of
  the walk is not recovered and ends the function (\<open>Panic\<close>).
\<close>

record 'fs organize_result =
  r_totalScanned :: int
  r_totalToProcess :: int
  r_totalSkipped :: int
  r_scanErr :: "string option"
  r_fs :: 'fs
  r_progress :: "ProgressUpdate list"

definition OrganizeFiles ::
  "'fs os_env \<Rightarrow> Config \<Rightarrow> root \<Rightarrow> 'fs \<Rightarrow> 'fs organize_result go"
where
  "OrganizeFiles env cfg0 r s =
     (let cfg = (if Workers cfg0 \<le> 0 then cfg0\<lparr>Workers := 1\<rparr> else cfg0) in
      case scanPhase cfg r of
        (WPanic p, st) \<Rightarrow> Panic p
      | (WErr e, st) \<Rightarrow>
          Ret \<lparr>r_totalScanned = totalScanned st, r_totalToProcess = 0,
               r_totalSkipped = totalSkipped st,
               r_scanErr = Some (''error walking source directory '' @ [CHR 0x27] @
                  SourceDir cfg @ [CHR 0x27] @ '': '' @ e),
               r_fs = s, r_progress = []\<rparr>
      | (ok, st) \<Rightarrow>
          (let totalToProcess = int (length (filesToMove st)) in
           if totalToProcess = 0 then
             Ret \<lparr>r_totalScanned = totalScanned st, r_totalToProcess = totalToProcess,
                  r_totalSkipped = totalSkipped st, r_scanErr = None,
                  r_fs = s, r_progress = []\<rparr>
           else
             (case dispatch env (Quiet cfg) (filesToMove st) s of
                (s', out, pr) \<Rightarrow>
                  Ret \<lparr>r_totalScanned = totalScanned st, r_totalToProcess = totalToProcess,
                       r_totalSkipped = totalSkipped st, r_scanErr = None,
                       r_fs = s', r_progress = out\<rparr>)))"

section \<open>An in-memory file system\<close>

text \<open>
  A small file system on which the model can be run: files with their contents,
  directories, paths that \<open>os.Stat\<close> cannot read, paths that cannot be written, paths on
  which \<open>os.Stat\<close> raises a panic, and a clock. It is one instance of the environment;
  the theorems about \<open>moveFile\<close> and \<open>OrganizeFiles\<close> hold for every environment.
\<close>

record memfs =
  mem_files :: "(string \<times> string) list"
  mem_dirs :: "string list"
  mem_unreadable :: "string list"
  mem_readonly :: "string list"
  mem_panicking :: "string list"
  mem_clock :: gotime

definition memStat :: "memfs \<Rightarrow> string \<Rightarrow> stat_result go" where
  "memStat s p =
     (if p \<in> set (mem_panicking s) then Panic ''fault in stat''
      else if p \<in> set (mem_unreadable s) then Ret (StatError ''permission denied'')
      else if p \<in> set (mem_dirs s) \<or> map_of (mem_files s) p \<noteq> None then Ret StatOk
      else Ret StatNotExist)"

definition memMkdirAll :: "memfs \<Rightarrow> string \<Rightarrow> (string option \<times> memfs) go" where
  "memMkdirAll s p =
     (if p \<in> set (mem_readonly s) then Ret (Some ''permission denied'', s)
      else Ret (None, s\<lparr>mem_dirs := p # mem_dirs s\<rparr>))"

definition memRename :: "memfs \<Rightarrow> string \<Rightarrow> string \<Rightarrow> (string option \<times> memfs) go" where
  "memRename s old new =
     (case map_of (mem_files s) old of
        None \<Rightarrow> Ret (Some ''no such file or directory'', s)
      | Some content \<Rightarrow>
          if new \<in> set (mem_readonly s) then Ret (Some ''permission denied'', s)
          else Ret (None, s\<lparr>mem_files :=
                 (new, content) # filter (\<lambda>kv. fst kv \<noteq> old \<and> fst kv \<noteq> new) (mem_files s)\<rparr>))"

definition memEnv :: "memfs os_env" where
  "memEnv = \<lparr>os_Stat = memStat, os_MkdirAll = memMkdirAll, os_Rename = memRename,
             time_Now = mem_clock\<rparr>"

definition memStart :: memfs where
  "memStart =
     \<lparr>mem_files = [(''/source/report.pdf'', ''new''), (''/dest/Documents/report.pdf'', ''old''),
                   (''/source/a.jpg'', ''picture''), (''/source/clip.mp4'', ''film''),
                   (''/source/locked.txt'', ''text'')],
      mem_dirs = [''/source'', ''/dest'', ''/dest/Documents''],
      mem_unreadable = [''/dest/Documents/locked.txt''],
      mem_readonly = [''/dest/Videos''],
      mem_panicking = [''/dest/Audio''],
      mem_clock = \<lparr>Year = 2025, Month = 7, Day = 4, Hour = 15, Minute = 30, Second = 0\<rparr>\<rparr>"

definition oneOutcome :: "ProgressUpdate list \<Rightarrow> bool" where
  "oneOutcome out = (out = [\<lparr>Moved = 1, Errored = 0\<rparr>] \<or> out = [\<lparr>Moved = 0, Errored = 1\<rparr>])"

section \<open>What a scan is measured against\<close>

text \<open>
  The counts that the specification relates to the results of a scan, read off the list
  of the callback's calls: the directories visited (a call without error on a
  directory), the entries that failed (a call with an error) and the paths of the files
  visited (a call without error on an entry that is not a directory).
\<close>

definition directoriesVisited :: "scan_state \<Rightarrow> int" where
  "directoriesVisited st =
     int (length (filter (\<lambda>v. snd (snd v) = None \<and> fst (snd v) = Some True) (visited st)))"

definition erroredEntries :: "scan_state \<Rightarrow> int" where
  "erroredEntries st = int (length (filter (\<lambda>v. snd (snd v) \<noteq> None) (visited st)))"

definition fileVisits :: "scan_state \<Rightarrow> string list" where
  "fileVisits st =
     map fst (filter (\<lambda>v. snd (snd v) = None \<and> fst (snd v) = Some False) (visited st))"

text \<open>
  The specification's "lies under the destination root": the path continues the root
  with a separator and the name of something inside it.
\<close>

definition underRoot :: "string \<Rightarrow> string \<Rightarrow> bool" where
  "underRoot destRoot path =
     (if destRoot \<noteq> [] \<and> last destRoot = CHR ''/'' then HasPrefix path destRoot
      else HasPrefix path (destRoot @ ''/''))"

text \<open>
  The files of a tree, with the paths the walk gives them, in the order of the walk;
  \<open>directFiles\<close> are the files that are entries of the root directory itself.
\<close>

fun filePaths :: "string \<Rightarrow> entry \<Rightarrow> string list"
and filePathsIn :: "string \<Rightarrow> (string \<times> entry) list \<Rightarrow> string list"
where
  "filePaths path File = [path]"
| "filePaths path (Directory dirs rerr) = filePathsIn path dirs"
| "filePathsIn path [] = []"
| "filePathsIn path ((name, d) # rest) = filePaths (Join [path, name]) d @ filePathsIn path rest"

definition directFiles :: "string \<Rightarrow> (string \<times> entry) list \<Rightarrow> string list" where
  "directFiles path dirs = map (\<lambda>nd. Join [path, fst nd]) (filter (\<lambda>nd. \<not> IsDir (snd nd)) dirs)"

text \<open>Configurations and trees of the examples.\<close>

definition exampleCfg :: "bool \<Rightarrow> Config" where
  "exampleCfg recursive =
     \<lparr>SourceDir = ''/source'', DestDir = ''/dest'', cfgDryRun = False, Recursive = recursive,
      Workers = 2, CategoryMappings = DefaultCategoryMappings, Quiet = False\<rparr>"

definition twoLevelTree :: "(string \<times> entry) list" where
  "twoLevelTree = [(''a.txt'', File), (''sub'', Directory [(''b.txt'', File)] None)]"

definition unreadableTree :: entry where
  "unreadableTree =
     Directory [(''a'', Directory [] (Some ''open /source/a: permission denied'')),
                (''b'', Directory [] (Some ''open /source/b: input/output error'')),
                (''c.txt'', File)] None"

definition siblingCfg :: Config where
  "siblingCfg =
     \<lparr>SourceDir = ''/data'', DestDir = ''/data/org'', cfgDryRun = False, Recursive = True,
      Workers = 1, CategoryMappings = DefaultCategoryMappings, Quiet = False\<rparr>"

definition siblingTree :: entry where
  "siblingTree =
     Directory [(''org'', Directory [(''Documents'', Directory [(''old.txt'', File)] None)] None),
                (''organized-old'', Directory [(''x.txt'', File)] None)] None"

text \<open>
  Two invariants of a scan: every call of the callback is accounted for once, and the
  files visited are split by the prefix test into the skipped and the planned.
\<close>

definition accounted :: "scan_state \<Rightarrow> bool" where
  "accounted st \<longleftrightarrow>
     int (length (filesToMove st)) + totalSkipped st + directoriesVisited st + erroredEntries st
       = totalScanned st
     \<and> totalScanned st = int (length (visited st))"

definition prefixSplit :: "Config \<Rightarrow> scan_state \<Rightarrow> bool" where
  "prefixSplit cfg st \<longleftrightarrow>
     totalSkipped st = int (length (filter (\<lambda>p. HasPrefix p (DestDir cfg)) (fileVisits st)))
     \<and> map SourcePath (filesToMove st) = filter (\<lambda>p. \<not> HasPrefix p (DestDir cfg)) (fileVisits st)"

text \<open>
  One planned move for every way through \<open>moveFile\<close>, on the file system \<open>memStart\<close>:
  the directory cannot be created, the destination cannot be examined, the source is
  gone, a dry run, a move that succeeds, and a panic.
\<close>

definition mkdirFailureMove :: FileMove where
  "mkdirFailureMove =
     \<lparr>SourcePath = ''/source/clip.mp4'', DestPath = ''/dest/Videos/clip.mp4'', DryRun = False\<rparr>"

definition statFailureMove :: FileMove where
  "statFailureMove =
     \<lparr>SourcePath = ''/source/locked.txt'', DestPath = ''/dest/Documents/locked.txt'',
      DryRun = False\<rparr>"

definition renameFailureMove :: FileMove where
  "renameFailureMove =
     \<lparr>SourcePath = ''/source/missing.pdf'', DestPath = ''/dest/Documents/missing.pdf'',
      DryRun = False\<rparr>"

definition dryRunMove :: FileMove where
  "dryRunMove =
     \<lparr>SourcePath = ''/source/report.pdf'', DestPath = ''/dest/Documents/report.pdf'',
      DryRun = True\<rparr>"

definition successMove :: FileMove where
  "successMove =
     \<lparr>SourcePath = ''/source/a.jpg'', DestPath = ''/dest/Images/a.jpg'', DryRun = False\<rparr>"

definition panicMove :: FileMove where
  "panicMove =
     \<lparr>SourcePath = ''/source/song.mp3'', DestPath = ''/dest/Audio/song.mp3'', DryRun = False\<rparr>"

definition sampleQueue :: "FileMove list" where
  "sampleQueue =
     [mkdirFailureMove, statFailureMove, renameFailureMove, dryRunMove, successMove, panicMove]"




text \<open>
  Paths as \<open>main\<close> hands them to \<open>OrganizeFiles\<close>: \<open>filepath.Abs\<close> gives a clean
  absolute path, that is \<open>/e1/.../en\<close> for elements that are names (not empty, without
  separator, neither \<open>.\<close> nor \<open>..\<close>).
\<close>

definition simpleName :: "string \<Rightarrow> bool" where
  "simpleName x = (x \<noteq> [] \<and> CHR ''/'' \<notin> set x \<and> x \<noteq> ''.'' \<and> x \<noteq> ''..'')"

definition absPath :: "string list \<Rightarrow> string" where
  "absPath els = concat (map (\<lambda>e. ''/'' @ e) els)"

section \<open>Names, extensions and timestamps\<close>








lemma Base_not_Nil: "Base p \<noteq> []"
  by (simp add: Base_def Let_def)










declare cleanLoop.simps [simp del]

lemma cleanLoop_Nil: "cleanLoop rooted [] out dd = out"
  by (simp add: cleanLoop.simps)

lemma cleanLoop_sep:
  assumes "IsPathSeparator c"
  shows "cleanLoop rooted (c # cs) out dd = cleanLoop rooted cs out dd"
  by (subst cleanLoop.simps) (simp only: assms if_True)



lemma cleanLoop_name:
  assumes "\<not> IsPathSeparator c"
    and "\<not> (c = CHR ''.'' \<and> (cs = [] \<or> IsPathSeparator (hd cs)))"
    and "\<not> (c = CHR ''.'' \<and> hd cs = CHR ''.'' \<and> (tl cs = [] \<or> IsPathSeparator (hd (tl cs))))"
  shows "cleanLoop rooted (c # cs) out dd =
       cleanLoop rooted (dropWhile (\<lambda>x. \<not> IsPathSeparator x) cs)
         ((if rooted \<and> length out \<noteq> 1 \<or> \<not> rooted \<and> length out \<noteq> 0 then out @ ''/'' else out)
            @ c # takeWhile (\<lambda>x. \<not> IsPathSeparator x) cs) dd"
  by (subst cleanLoop.simps) (simp only: assms if_True if_False Let_def)






lemma Join_two: "d \<noteq> [] \<Longrightarrow> Join [d, y] = Clean (d @ ''/'' @ y)"
  by (simp add: Join_def)





lemma cleanLoop_simple_then:
  assumes e: "simpleName e" and r: "r = [] \<or> IsPathSeparator (hd r)"
  shows "cleanLoop rooted (e @ r) out dd =
           cleanLoop rooted r
             ((if rooted \<and> length out \<noteq> 1 \<or> \<not> rooted \<and> length out \<noteq> 0 then out @ ''/'' else out) @ e) dd"
proof -
  from e obtain c cs where ec: "e = c # cs" by (cases e) (auto simp: simpleName_def)
  have c: "\<not> IsPathSeparator c" and cs: "\<forall>y\<in>set cs. \<not> IsPathSeparator y"
    using e ec by (auto simp: IsPathSeparator_def simpleName_def)
  have tw: "takeWhile (\<lambda>y. \<not> IsPathSeparator y) (cs @ r) = cs"
    "dropWhile (\<lambda>y. \<not> IsPathSeparator y) (cs @ r) = r"
    using cs r by (cases r; simp add: takeWhile_append2 dropWhile_append2)+
  have n2: "\<not> (c = CHR ''.'' \<and> (cs @ r = [] \<or> IsPathSeparator (hd (cs @ r))))"
  proof
    assume a: "c = CHR ''.'' \<and> (cs @ r = [] \<or> IsPathSeparator (hd (cs @ r)))"
    with e ec have "cs \<noteq> []" by (auto simp: simpleName_def)
    with a cs show False by (cases cs) auto
  qed
  have n3: "\<not> (c = CHR ''.'' \<and> hd (cs @ r) = CHR ''.'' \<and>
        (tl (cs @ r) = [] \<or> IsPathSeparator (hd (tl (cs @ r)))))"
  proof
    assume a: "c = CHR ''.'' \<and> hd (cs @ r) = CHR ''.'' \<and>
        (tl (cs @ r) = [] \<or> IsPathSeparator (hd (tl (cs @ r))))"
    with e ec have ne: "cs \<noteq> []" by (auto simp: simpleName_def)
    then obtain d ds where ds: "cs = d # ds" by (cases cs) auto
    with a have d: "d = CHR ''.''" by simp
    with e ec ds a have "ds \<noteq> []" by (auto simp: simpleName_def)
    with a ds cs show False by (cases ds) auto
  qed
  show ?thesis
    unfolding ec append_Cons cleanLoop_name [OF c n2 n3] tw by simp
qed

lemma cleanLoop_slash:
  "cleanLoop rooted (CHR ''/'' # r) out dd = cleanLoop rooted r out dd"
  by (rule cleanLoop_sep) (simp add: IsPathSeparator_def)

lemma cleanLoop_abs:
  assumes "list_all simpleName els" and "length out \<noteq> 1" 
  shows "cleanLoop True (absPath els) out dd = out @ absPath els"
  using assms
proof (induction els arbitrary: out)
  case Nil
  show ?case by (simp add: absPath_def cleanLoop_Nil)
next
  case (Cons e els)
  have r: "absPath els = [] \<or> IsPathSeparator (hd (absPath els))"
    by (cases els) (simp_all add: absPath_def IsPathSeparator_def)
  from Cons.prems have e: "simpleName e" and rest: "list_all simpleName els" by simp_all
  from e have ne: "e \<noteq> []" by (simp add: simpleName_def)
  have "cleanLoop True (absPath (e # els)) out dd = cleanLoop True (e @ absPath els) out dd"
    by (simp add: absPath_def cleanLoop_slash)
  also have "\<dots> = cleanLoop True (absPath els) (out @ ''/'' @ e) dd"
    using cleanLoop_simple_then [OF e r, of True out dd] Cons.prems(2) by simp
  also have "\<dots> = (out @ ''/'' @ e) @ absPath els"
    using ne by (intro Cons.IH [OF rest]) (cases e, simp_all)
  finally show ?case by (simp add: absPath_def)
qed

lemma Clean_absPath:
  assumes "list_all simpleName els" and "els \<noteq> []"
  shows "Clean (absPath els) = absPath els"
proof -
  from assms obtain e rest where els: "els = e # rest" by (cases els) auto
  with assms have e: "simpleName e" and rest: "list_all simpleName rest" by simp_all
  have r: "absPath rest = [] \<or> IsPathSeparator (hd (absPath rest))"
    by (cases rest) (simp_all add: absPath_def IsPathSeparator_def)
  from e have ne: "e \<noteq> []" by (simp add: simpleName_def)
  have "cleanLoop True (e @ absPath rest) ''/'' 1 = cleanLoop True (absPath rest) (''/'' @ e) 1"
    using cleanLoop_simple_then [OF e r, of True "''/''" 1] by simp
  also have "\<dots> = (''/'' @ e) @ absPath rest"
    using ne by (intro cleanLoop_abs [OF rest]) (cases e, simp_all)
  finally have "cleanLoop True (e @ absPath rest) ''/'' 1 = absPath els"
    by (simp add: els absPath_def)
  then show ?thesis
    by (simp add: Clean_def Let_def els absPath_def IsPathSeparator_def)
qed

lemma absPath_snoc: "absPath (els @ [x]) = absPath els @ ''/'' @ x"
  by (simp add: absPath_def)

lemma Join_absPath:
  assumes "list_all simpleName els" and "els \<noteq> []" and "simpleName x"
  shows "Join [absPath els, x] = absPath els @ ''/'' @ x"
proof -
  have ne: "absPath els \<noteq> []" using assms(2) by (cases els) (simp_all add: absPath_def)
  have "Join [absPath els, x] = Clean (absPath (els @ [x]))"
    using ne by (simp add: Join_two absPath_snoc)
  also have "\<dots> = absPath (els @ [x])"
    using assms by (intro Clean_absPath) simp_all
  finally show ?thesis by (simp add: absPath_snoc)
qed

section \<open>The walk and its callback\<close>

lemma walkFn_ret:
  "fst (walkFn cfg path d (Some e) st) = WNil"
  "fst (walkFn cfg path (Some File) None st) = WNil"
  "fst (walkFn cfg path (Some ent) None st) = WNil \<or> fst (walkFn cfg path (Some ent) None st) = WSkipDir"
  by (auto simp: walkFn_def Let_def)

lemma walk_nil:
  "fst (walkDir (walkFn cfg) path d s) = WNil"
  "fst (walkEntries (walkFn cfg) path ds s) = WNil"
proof (induction "walkFn cfg" path d s and "walkFn cfg" path ds s rule: walkDir_walkEntries.induct)
  case (1 path s)
  show ?case by (simp add: walkFn_ret)
next
  case (2 path dirs rerr s)
  obtain err s1 where c1: "walkFn cfg path (Some (Directory dirs rerr)) None s = (err, s1)"
    by (metis surj_pair)
  from walkFn_ret(3) [of cfg path "Directory dirs rerr" s] c1
  have err: "err = WNil \<or> err = WSkipDir" by simp
  show ?case
  proof (cases "err = WNil")
    case False
    with err c1 show ?thesis by simp
  next
    case True
    show ?thesis
    proof (cases rerr)
      case None
      from 2(1) [OF c1 [symmetric] _ None] True c1 None show ?thesis by simp
    next
      case (Some e)
      obtain err2 s2 where c2: "walkFn cfg path (Some (Directory dirs rerr)) (Some e) s1 = (err2, s2)"
        by (metis surj_pair)
      from walkFn_ret(1) [of cfg path "Some (Directory dirs rerr)" e s1] c2
      have e2: "err2 = WNil" by simp
      from 2(2) [OF c1 [symmetric] _ Some c2 [symmetric]] True e2 c1 c2 Some
      show ?thesis by simp
    qed
  qed
next
  case (3 path s)
  show ?case by simp
next
  case (4 path name d1 rest s)
  obtain err s1 where c: "walkDir (walkFn cfg) (Join [path, name]) d1 s = (err, s1)"
    by (metis surj_pair)
  from 4(1) c have e: "err = WNil" by simp
  from 4(2) [OF c [symmetric]] e c show ?case by simp
qed

lemma scanPhase_nil: "fst (scanPhase cfg r) = WNil"
  by (cases r) (simp_all add: scanPhase_def WalkDir_def split_beta walkFn_ret walk_nil)

lemma walk_invariant:
  "(\<And>p d e s. I s \<Longrightarrow> I (snd (fn p (Some d) e s))) \<Longrightarrow> I s \<Longrightarrow> I (snd (walkDir fn path d s))"
  "(\<And>p d e s. I s \<Longrightarrow> I (snd (fn p (Some d) e s))) \<Longrightarrow> I s \<Longrightarrow> I (snd (walkEntries fn path ds s))"
proof (induction fn path d s and fn path ds s rule: walkDir_walkEntries.induct)
  case (1 walkDirFn path s)
  then show ?case by simp
next
  case (2 walkDirFn path dirs rerr s)
  note step = 2(3)
  obtain err s1 where c1: "walkDirFn path (Some (Directory dirs rerr)) None s = (err, s1)"
    by (metis surj_pair)
  from step [OF 2(4), of path "Directory dirs rerr" None] c1 have i1: "I s1" by simp
  show ?case
  proof (cases "err = WNil")
    case False
    with c1 i1 show ?thesis by simp
  next
    case True
    show ?thesis
    proof (cases rerr)
      case None
      from 2(1) [OF c1 [symmetric] _ None step i1] True c1 None show ?thesis by simp
    next
      case (Some e)
      obtain err2 s2 where c2: "walkDirFn path (Some (Directory dirs rerr)) (Some e) s1 = (err2, s2)"
        by (metis surj_pair)
      from step [OF i1, of path "Directory dirs rerr" "Some e"] c2 have i2: "I s2" by simp
      show ?thesis
      proof (cases "err2 = WNil")
        case False
        with True c1 c2 Some i2 show ?thesis by simp
      next
        case t2: True
        from 2(2) [OF c1 [symmetric] _ Some c2 [symmetric] _ step i2] True t2 c1 c2 Some
        show ?thesis by simp
      qed
    qed
  qed
next
  case (3 walkDirFn path s)
  then show ?case by simp
next
  case (4 walkDirFn path name d1 rest s)
  note step = 4(3)
  obtain err s1 where c: "walkDir walkDirFn (Join [path, name]) d1 s = (err, s1)"
    by (metis surj_pair)
  from 4(1) [OF step 4(4)] c have i1: "I s1" by simp
  show ?case
  proof (cases "err = WNil")
    case False
    with c i1 show ?thesis by simp
  next
    case True
    from 4(2) [OF c [symmetric] _ step i1] True c show ?thesis by simp
  qed
qed

lemma scanPhase_invariant:
  assumes entry: "\<And>p d e s. I s \<Longrightarrow> I (snd (walkFn cfg p (Some d) e s))"
    and failed: "\<And>p e s. I s \<Longrightarrow> I (snd (walkFn cfg p None (Some e) s))"
    and start: "I scanStart"
  shows "I (snd (scanPhase cfg r))"
proof (cases r)
  case (LstatFails e)
  with failed [OF start, of "SourceDir cfg" e] show ?thesis
    by (simp add: scanPhase_def WalkDir_def split_beta)
next
  case (Root info)
  with walk_invariant(1) [of I "walkFn cfg", OF entry start] show ?thesis
    by (simp add: scanPhase_def WalkDir_def split_beta)
qed

lemma walkFn_Workers: "walkFn (cfg\<lparr>Workers := w\<rparr>) = walkFn cfg"
  by (intro ext) (auto simp: walkFn_def Let_def split: option.splits)

lemma scanPhase_Workers: "scanPhase (cfg\<lparr>Workers := w\<rparr>) r = scanPhase cfg r"
  by (simp add: scanPhase_def walkFn_Workers)

lemma OrganizeFiles_returns:
  "\<exists>res. OrganizeFiles env cfg r s = Ret res \<and> r_scanErr res = None
     \<and> r_totalScanned res = totalScanned (snd (scanPhase cfg r))
     \<and> r_totalSkipped res = totalSkipped (snd (scanPhase cfg r))
     \<and> r_totalToProcess res = int (length (filesToMove (snd (scanPhase cfg r))))
     \<and> r_progress res =
         (if filesToMove (snd (scanPhase cfg r)) = [] then []
          else fst (snd (dispatch env (Quiet cfg) (filesToMove (snd (scanPhase cfg r))) s)))"
proof -
  define cfg' where "cfg' = (if Workers cfg \<le> 0 then cfg\<lparr>Workers := 1\<rparr> else cfg)"
  have same: "scanPhase cfg' r = scanPhase cfg r" and q: "Quiet cfg' = Quiet cfg"
    by (simp_all add: cfg'_def scanPhase_Workers)
  obtain st where sp: "scanPhase cfg r = (WNil, st)"
    using scanPhase_nil [of cfg r] by (cases "scanPhase cfg r") simp
  show ?thesis
    using sp same q unfolding OrganizeFiles_def cfg'_def [symmetric] Let_def
    by (auto split: prod.splits)
qed

section \<open>Errors of the scan\<close>

text \<open>
  Claim C2. A traversal error on one entry does not stop the scan, but the callback
  stores every such error in \<open>scanErr\<close>, the later over the earlier, and
  \<open>OrganizeFiles\<close> returns \<open>nil\<close> in place of \<open>scanErr\<close>. On a source whose
  directories \<open>a\<close> and \<open>b\<close> cannot be read, \<open>scanErr\<close> ends as the error of \<open>b\<close>,
  the second of the two, and the error result of \<open>OrganizeFiles\<close> is \<open>nil\<close>: the
  caller is told of no error at all.
\<close>

theorem c2_scan_error_overwritten_and_dropped:
  "scanErr (snd (scanPhase (exampleCfg True) (Root unreadableTree)))
     = Some ''encountered error during scan: open /source/b: input/output error''
   \<and> map (\<lambda>v. snd (snd v)) (filter (\<lambda>v. snd (snd v) \<noteq> None)
          (visited (snd (scanPhase (exampleCfg True) (Root unreadableTree)))))
     = [Some ''open /source/a: permission denied'', Some ''open /source/b: input/output error'']
   \<and> (\<exists>res. OrganizeFiles env (exampleCfg True) (Root unreadableTree) s = Ret res
         \<and> r_scanErr res = None \<and> r_totalScanned res = 6 \<and> r_totalToProcess res = 1)"
proof -
  have a: "scanErr (snd (scanPhase (exampleCfg True) (Root unreadableTree)))
     = Some ''encountered error during scan: open /source/b: input/output error''"
    by code_simp
  have b: "map (\<lambda>v. snd (snd v)) (filter (\<lambda>v. snd (snd v) \<noteq> None)
          (visited (snd (scanPhase (exampleCfg True) (Root unreadableTree)))))
     = [Some ''open /source/a: permission denied'', Some ''open /source/b: input/output error'']"
    by code_simp
  have c: "totalScanned (snd (scanPhase (exampleCfg True) (Root unreadableTree))) = 6"
    "int (length (filesToMove (snd (scanPhase (exampleCfg True) (Root unreadableTree))))) = 1"
    by code_simp+
  from OrganizeFiles_returns [of env "exampleCfg True" "Root unreadableTree" s] a b c
  show ?thesis by auto
qed

text \<open>
  Claim C3. When \<open>Lstat\<close> of the source root fails, \<open>WalkDir\<close> hands the error to the
  callback, which stores it and returns \<open>nil\<close>; the walk therefore ends without error,
  nothing is planned or dispatched, and \<open>OrganizeFiles\<close> returns one scanned entry and
  a \<open>nil\<close> error: the failure does not reach the caller.
\<close>

theorem c3_root_failure_not_reported:
  "OrganizeFiles env cfg (LstatFails e) s =
     Ret \<lparr>r_totalScanned = 1, r_totalToProcess = 0, r_totalSkipped = 0, r_scanErr = None,
          r_fs = s, r_progress = []\<rparr>"
  by (simp add: OrganizeFiles_def scanPhase_def WalkDir_def walkFn_def scanStart_def Let_def)

section \<open>Accounting of the scan\<close>

lemma accounted_step:
  "accounted s \<Longrightarrow> e \<noteq> None \<or> d \<noteq> None \<Longrightarrow> accounted (snd (walkFn cfg p d e s))"
  by (cases e; cases d)
     (auto simp: accounted_def walkFn_def Let_def directoriesVisited_def erroredEntries_def)

text \<open>
  Claim C9. After every scan, the planned moves, the skipped files, the directories
  visited and the entries that failed add up to \<open>totalScanned\<close>, which counts every
  call of the callback; \<open>OrganizeFiles\<close> returns these counts.
\<close>

theorem c9_scan_accounting:
  "int (length (filesToMove (snd (scanPhase cfg r)))) + totalSkipped (snd (scanPhase cfg r))
      + directoriesVisited (snd (scanPhase cfg r)) + erroredEntries (snd (scanPhase cfg r))
     = totalScanned (snd (scanPhase cfg r))
   \<and> totalScanned (snd (scanPhase cfg r)) = int (length (visited (snd (scanPhase cfg r))))
   \<and> (\<exists>res. OrganizeFiles env cfg r s = Ret res
        \<and> r_totalToProcess res + r_totalSkipped res + directoriesVisited (snd (scanPhase cfg r))
            + erroredEntries (snd (scanPhase cfg r)) = r_totalScanned res)"
proof -
  have "accounted (snd (scanPhase cfg r))"
    by (rule scanPhase_invariant) (simp_all add: accounted_step, simp add: accounted_def scanStart_def directoriesVisited_def erroredEntries_def)
  then have a: "int (length (filesToMove (snd (scanPhase cfg r)))) + totalSkipped (snd (scanPhase cfg r))
      + directoriesVisited (snd (scanPhase cfg r)) + erroredEntries (snd (scanPhase cfg r))
     = totalScanned (snd (scanPhase cfg r))"
    and b: "totalScanned (snd (scanPhase cfg r)) = int (length (visited (snd (scanPhase cfg r))))"
    by (simp_all add: accounted_def)
  from OrganizeFiles_returns [of env cfg r s] obtain res where
    res: "OrganizeFiles env cfg r s = Ret res"
      "r_totalScanned res = totalScanned (snd (scanPhase cfg r))"
      "r_totalSkipped res = totalSkipped (snd (scanPhase cfg r))"
      "r_totalToProcess res = int (length (filesToMove (snd (scanPhase cfg r))))"
    by blast
  from a b res show ?thesis by simp
qed

theorem c9_scan_accounting_witness:
  "int (length (filesToMove (snd (scanPhase (exampleCfg True) (Root unreadableTree))))) = 1
   \<and> totalSkipped (snd (scanPhase (exampleCfg True) (Root unreadableTree))) = 0
   \<and> directoriesVisited (snd (scanPhase (exampleCfg True) (Root unreadableTree))) = 3
   \<and> erroredEntries (snd (scanPhase (exampleCfg True) (Root unreadableTree))) = 2
   \<and> totalScanned (snd (scanPhase (exampleCfg True) (Root unreadableTree))) = 6"
proof -
  have a: "int (length (filesToMove (snd (scanPhase (exampleCfg True) (Root unreadableTree))))) = 1"
    by code_simp
  have b: "totalSkipped (snd (scanPhase (exampleCfg True) (Root unreadableTree))) = 0"
    by code_simp
  have c: "directoriesVisited (snd (scanPhase (exampleCfg True) (Root unreadableTree))) = 3"
    by code_simp
  have d: "erroredEntries (snd (scanPhase (exampleCfg True) (Root unreadableTree))) = 2"
    by code_simp
  from a b c d c9_scan_accounting [of "exampleCfg True" "Root unreadableTree" memEnv memStart]
  show ?thesis by simp
qed

section \<open>The test for files already in the destination\<close>

lemma prefixSplit_step: "prefixSplit cfg s \<Longrightarrow> prefixSplit cfg (snd (walkFn cfg p d e s))"
  by (cases e; cases d) (auto simp: prefixSplit_def walkFn_def Let_def fileVisits_def)

lemma prefixSplit_scan: "prefixSplit cfg (snd (scanPhase cfg r))"
  by (rule scanPhase_invariant) (simp_all add: prefixSplit_step, simp add: prefixSplit_def scanStart_def fileVisits_def)

text \<open>
  Claim C10. A file is skipped exactly when the destination root, as a string, is a prefix
  of its path: the callback then counts it in \<open>totalSkipped\<close> and plans nothing, and
  otherwise plans it. Over a whole scan \<open>totalSkipped\<close> is the number of visited files
  with that prefix and the planned sources are the visited files without it. A file in a
  sibling directory whose name continues the destination root's is skipped too.
\<close>

theorem c10_prefix_test:
  "(HasPrefix path (DestDir cfg) \<longrightarrow>
      totalSkipped (snd (walkFn cfg path (Some File) None st)) = totalSkipped st + 1
      \<and> filesToMove (snd (walkFn cfg path (Some File) None st)) = filesToMove st)
   \<and> (\<not> HasPrefix path (DestDir cfg) \<longrightarrow>
      totalSkipped (snd (walkFn cfg path (Some File) None st)) = totalSkipped st
      \<and> map SourcePath (filesToMove (snd (walkFn cfg path (Some File) None st)))
          = map SourcePath (filesToMove st) @ [path])
   \<and> totalSkipped (snd (scanPhase cfg r))
        = int (length (filter (\<lambda>p. HasPrefix p (DestDir cfg)) (fileVisits (snd (scanPhase cfg r)))))
   \<and> map SourcePath (filesToMove (snd (scanPhase cfg r)))
        = filter (\<lambda>p. \<not> HasPrefix p (DestDir cfg)) (fileVisits (snd (scanPhase cfg r)))"
proof -
  have a: "HasPrefix path (DestDir cfg) \<longrightarrow>
      totalSkipped (snd (walkFn cfg path (Some File) None st)) = totalSkipped st + 1
      \<and> filesToMove (snd (walkFn cfg path (Some File) None st)) = filesToMove st"
    by (simp add: walkFn_def Let_def)
  have b: "\<not> HasPrefix path (DestDir cfg) \<longrightarrow>
      totalSkipped (snd (walkFn cfg path (Some File) None st)) = totalSkipped st
      \<and> map SourcePath (filesToMove (snd (walkFn cfg path (Some File) None st)))
          = map SourcePath (filesToMove st) @ [path]"
    by (simp add: walkFn_def Let_def)
  from a b prefixSplit_scan [of cfg r] show ?thesis
    unfolding prefixSplit_def by blast
qed

theorem c10_prefix_test_witness:
  "HasPrefix ''/data/organized-old/x.txt'' (DestDir siblingCfg)
   \<and> \<not> underRoot (DestDir siblingCfg) ''/data/organized-old/x.txt''
   \<and> totalSkipped (snd (walkFn siblingCfg ''/data/organized-old/x.txt'' (Some File) None scanStart)) = 1
   \<and> filesToMove (snd (walkFn siblingCfg ''/data/organized-old/x.txt'' (Some File) None scanStart)) = []
   \<and> map SourcePath (filesToMove (snd (walkFn siblingCfg ''/data/other/x.txt'' (Some File) None scanStart)))
        = [''/data/other/x.txt'']"
proof -
  have h: "HasPrefix ''/data/organized-old/x.txt'' (DestDir siblingCfg)" by code_simp
  have n: "\<not> HasPrefix ''/data/other/x.txt'' (DestDir siblingCfg)" by code_simp
  have u: "\<not> underRoot (DestDir siblingCfg) ''/data/organized-old/x.txt''" by code_simp
  have z: "totalSkipped scanStart = 0" "filesToMove scanStart = []" by (simp_all add: scanStart_def)
  from h n u z
    c10_prefix_test [of "''/data/organized-old/x.txt''" siblingCfg scanStart]
    c10_prefix_test [of "''/data/other/x.txt''" siblingCfg scanStart]
  show ?thesis by simp
qed

text \<open>
  Claim C6. With destination root \<open>/data/org\<close> and a sibling directory
  \<open>/data/organized-old\<close>, the scan counts two skipped files, though one file only lies
  under the destination root; the file of the sibling directory is not planned.
\<close>

theorem c6_sibling_counted_as_skipped:
  "totalSkipped (snd (scanPhase siblingCfg (Root siblingTree))) = 2
   \<and> filesToMove (snd (scanPhase siblingCfg (Root siblingTree))) = []
   \<and> filter (underRoot (DestDir siblingCfg)) (filePaths (SourceDir siblingCfg) siblingTree)
        = [''/data/org/Documents/old.txt'']
   \<and> filter (\<lambda>p. \<not> underRoot (DestDir siblingCfg) p) (filePaths (SourceDir siblingCfg) siblingTree)
        = [''/data/organized-old/x.txt'']"
  by code_simp

section \<open>Recursive and non-recursive scans\<close>

lemma walkFn_dir:
  "IsDir d \<Longrightarrow> walkFn cfg p (Some d) None s =
     ((if \<not> Recursive cfg \<and> p \<noteq> SourceDir cfg then WSkipDir else WNil),
      s\<lparr>totalScanned := totalScanned s + 1, visited := visited s @ [(p, Some True, None)]\<rparr>)"
  by (simp add: walkFn_def Let_def)

lemma walkFn_failed_visits:
  "visited (snd (walkFn cfg p d (Some e) s)) = visited s @ [(p, map_option IsDir d, Some e)]"
  by (simp add: walkFn_def Let_def)

lemma walkFn_file_visits:
  "visited (snd (walkFn cfg p (Some File) None s)) = visited s @ [(p, Some False, None)]"
  by (simp add: walkFn_def Let_def)

lemma nonrec_walkDir:
  assumes "\<not> Recursive cfg" and "IsDir d \<longrightarrow> p \<noteq> SourceDir cfg"
  shows "visited (snd (walkDir (walkFn cfg) p d s)) = visited s @ [(p, Some (IsDir d), None)]"
proof (cases d)
  case File
  then show ?thesis by (simp add: walkFn_file_visits)
next
  case (Directory dirs rerr)
  with assms show ?thesis by (simp add: walkFn_dir)
qed

lemma nonrec_walkEntries:
  assumes "\<not> Recursive cfg"
    and "\<forall>nd\<in>set ents. IsDir (snd nd) \<longrightarrow> Join [path, fst nd] \<noteq> SourceDir cfg"
  shows "visited (snd (walkEntries (walkFn cfg) path ents s)) =
           visited s @ map (\<lambda>nd. (Join [path, fst nd], Some (IsDir (snd nd)), None)) ents"
  using assms(2)
proof (induction ents arbitrary: s)
  case Nil
  show ?case by simp
next
  case (Cons nd ents)
  obtain name d where nd: "nd = (name, d)" by (cases nd)
  obtain err s1 where w: "walkDir (walkFn cfg) (Join [path, name]) d s = (err, s1)"
    by (metis surj_pair)
  from walk_nil(1) [of cfg "Join [path, name]" d s] w have e: "err = WNil" by simp
  from Cons.prems nd have ne: "IsDir d \<longrightarrow> Join [path, name] \<noteq> SourceDir cfg" by simp
  from nonrec_walkDir [OF assms(1) ne, of s] w
  have v1: "visited s1 = visited s @ [(Join [path, name], Some (IsDir d), None)]" by simp
  from Cons.prems have rest: "\<forall>nd\<in>set ents. IsDir (snd nd) \<longrightarrow> Join [path, fst nd] \<noteq> SourceDir cfg"
    by simp
  from Cons.IH [OF rest, of s1] v1 w e nd show ?case by simp
qed

lemma nonrec_scan_visited:
  assumes "\<not> Recursive cfg"
    and "\<forall>nd\<in>set ents. IsDir (snd nd) \<longrightarrow> Join [SourceDir cfg, fst nd] \<noteq> SourceDir cfg"
  shows "visited (snd (scanPhase cfg (Root (Directory ents rerr)))) =
           (SourceDir cfg, Some True, None) #
           (case rerr of None \<Rightarrow> [] | Some e \<Rightarrow> [(SourceDir cfg, Some True, Some e)]) @
           map (\<lambda>nd. (Join [SourceDir cfg, fst nd], Some (IsDir (snd nd)), None)) ents"
proof (cases rerr)
  case None
  then show ?thesis
    using nonrec_walkEntries [OF assms, of "scanStart\<lparr>totalScanned := totalScanned scanStart + 1,
       visited := visited scanStart @ [(SourceDir cfg, Some True, None)]\<rparr>"]
    by (simp add: scanPhase_def WalkDir_def walkFn_dir split_beta scanStart_def)
next
  case (Some e)
  obtain s2 where s2: "walkFn cfg (SourceDir cfg) (Some (Directory ents rerr)) (Some e)
      (scanStart\<lparr>totalScanned := totalScanned scanStart + 1,
         visited := visited scanStart @ [(SourceDir cfg, Some True, None)]\<rparr>) = (WNil, s2)"
    using walkFn_ret(1) by (metis prod.collapse)
  from walkFn_failed_visits [of cfg "SourceDir cfg" "Some (Directory ents rerr)" e
      "scanStart\<lparr>totalScanned := totalScanned scanStart + 1,
         visited := visited scanStart @ [(SourceDir cfg, Some True, None)]\<rparr>"] s2
  have v2: "visited s2 = [(SourceDir cfg, Some True, None), (SourceDir cfg, Some True, Some e)]"
    by (simp add: scanStart_def)
  from nonrec_walkEntries [OF assms, of s2] v2 s2 Some show ?thesis
    by (simp add: scanPhase_def WalkDir_def walkFn_dir split_beta)
qed

lemma directFiles_visits:
  "map fst (filter (\<lambda>v. snd (snd v) = None \<and> fst (snd v) = Some False)
     (map (\<lambda>nd. (Join [path, fst nd], Some (IsDir (snd nd)), None)) ents)) = directFiles path ents"
  by (induction ents) (auto simp: directFiles_def)

lemma nonrec_scan_files:
  assumes "\<not> Recursive cfg"
    and "\<forall>nd\<in>set ents. IsDir (snd nd) \<longrightarrow> Join [SourceDir cfg, fst nd] \<noteq> SourceDir cfg"
  shows "fileVisits (snd (scanPhase cfg (Root (Directory ents rerr)))) = directFiles (SourceDir cfg) ents"
  unfolding fileVisits_def nonrec_scan_visited [OF assms]
  by (cases rerr) (simp_all add: directFiles_visits)

lemma rec_walk:
  "Recursive cfg \<Longrightarrow> fileVisits (snd (walkDir (walkFn cfg) path d s)) = fileVisits s @ filePaths path d"
  "Recursive cfg \<Longrightarrow> fileVisits (snd (walkEntries (walkFn cfg) path ds s)) = fileVisits s @ filePathsIn path ds"
proof (induction "walkFn cfg" path d s and "walkFn cfg" path ds s rule: walkDir_walkEntries.induct)
  case (1 path s)
  show ?case by (simp add: fileVisits_def walkFn_file_visits)
next
  case (2 path dirs rerr s)
  let ?s1 = "s\<lparr>totalScanned := totalScanned s + 1, visited := visited s @ [(path, Some True, None)]\<rparr>"
  have c1: "walkFn cfg path (Some (Directory dirs rerr)) None s = (WNil, ?s1)"
    using 2(3) by (simp add: walkFn_dir)
  have f1: "fileVisits ?s1 = fileVisits s" by (simp add: fileVisits_def)
  show ?case
  proof (cases rerr)
    case None
    from 2(1) [OF c1 [symmetric] _ None 2(3)] c1 None f1 show ?thesis by simp
  next
    case (Some e)
    obtain s2 where c2: "walkFn cfg path (Some (Directory dirs rerr)) (Some e) ?s1 = (WNil, s2)"
      using walkFn_ret(1) by (metis prod.collapse)
    from walkFn_failed_visits [of cfg path "Some (Directory dirs rerr)" e ?s1] c2
    have f2: "fileVisits s2 = fileVisits s" by (simp add: fileVisits_def)
    from 2(2) [OF c1 [symmetric] _ Some c2 [symmetric] _ 2(3)] c1 c2 Some f2 show ?thesis by simp
  qed
next
  case (3 path s)
  show ?case by simp
next
  case (4 path name d1 rest s)
  obtain err s1 where c: "walkDir (walkFn cfg) (Join [path, name]) d1 s = (err, s1)"
    by (metis surj_pair)
  from walk_nil(1) [of cfg "Join [path, name]" d1 s] c have e: "err = WNil" by simp
  from 4(1) [OF 4(3)] c have f1: "fileVisits s1 = fileVisits s @ filePaths (Join [path, name]) d1"
    by simp
  from 4(2) [OF c [symmetric] _ 4(3)] e c f1 show ?case by simp
qed

lemma rec_scan_files:
  "Recursive cfg \<Longrightarrow> fileVisits (snd (scanPhase cfg (Root t))) = filePaths (SourceDir cfg) t"
  using rec_walk(1) [of cfg "SourceDir cfg" t scanStart]
  by (simp add: scanPhase_def WalkDir_def split_beta fileVisits_def scanStart_def)

text \<open>
  Claim C7. When \<open>Recursive\<close> is false, the scan visits the root, then every entry of
  the root once and nothing below: a directory whose path is not the source root is not
  descended into, and the planned moves are the files directly in the root (those the
  prefix test does not skip). When \<open>Recursive\<close> is true, every file of the tree is
  visited and planned likewise. The path of an entry of the root is never the path of the
  root when the source root is a clean absolute path and the entry has a name. For
  \<open>source/a.txt\<close> and \<open>source/sub/b.txt\<close> the first scan plans \<open>a.txt\<close> alone and the
  second plans both.
\<close>

theorem c7_recursive_flag:
  "(\<not> Recursive cfg
      \<and> (\<forall>nd\<in>set ents. IsDir (snd nd) \<longrightarrow> Join [SourceDir cfg, fst nd] \<noteq> SourceDir cfg) \<longrightarrow>
        visited (snd (scanPhase cfg (Root (Directory ents rerr)))) =
          (SourceDir cfg, Some True, None) #
          (case rerr of None \<Rightarrow> [] | Some e \<Rightarrow> [(SourceDir cfg, Some True, Some e)]) @
          map (\<lambda>nd. (Join [SourceDir cfg, fst nd], Some (IsDir (snd nd)), None)) ents
        \<and> map SourcePath (filesToMove (snd (scanPhase cfg (Root (Directory ents rerr))))) =
            filter (\<lambda>p. \<not> HasPrefix p (DestDir cfg)) (directFiles (SourceDir cfg) ents))
   \<and> (Recursive cfg \<longrightarrow>
        map SourcePath (filesToMove (snd (scanPhase cfg (Root t)))) =
          filter (\<lambda>p. \<not> HasPrefix p (DestDir cfg)) (filePaths (SourceDir cfg) t))
   \<and> (SourceDir cfg = absPath els \<and> els \<noteq> [] \<and> list_all simpleName els \<and> simpleName name \<longrightarrow>
        Join [SourceDir cfg, name] = SourceDir cfg @ ''/'' @ name
        \<and> Join [SourceDir cfg, name] \<noteq> SourceDir cfg)"
proof -
  have split: "map SourcePath (filesToMove (snd (scanPhase cfg r))) =
      filter (\<lambda>p. \<not> HasPrefix p (DestDir cfg)) (fileVisits (snd (scanPhase cfg r)))" for r
    using prefixSplit_scan [of cfg r] by (simp add: prefixSplit_def)
  have names: "SourceDir cfg = absPath els \<and> els \<noteq> [] \<and> list_all simpleName els \<and> simpleName name \<longrightarrow>
        Join [SourceDir cfg, name] = SourceDir cfg @ ''/'' @ name
        \<and> Join [SourceDir cfg, name] \<noteq> SourceDir cfg"
    using Join_absPath [of els name] by simp
  show ?thesis
    using nonrec_scan_visited [of cfg ents rerr] nonrec_scan_files [of cfg ents rerr]
      rec_scan_files [of cfg t] split [of "Root (Directory ents rerr)"] split [of "Root t"] names
    by simp
qed

theorem c7_recursive_flag_witness:
  "filesToMove (snd (scanPhase (exampleCfg False) (Root (Directory twoLevelTree None)))) =
     [\<lparr>SourcePath = ''/source/a.txt'', DestPath = ''/dest/Documents/a.txt'', DryRun = False\<rparr>]
   \<and> map fst (visited (snd (scanPhase (exampleCfg False) (Root (Directory twoLevelTree None))))) =
     [''/source'', ''/source/a.txt'', ''/source/sub'']
   \<and> filesToMove (snd (scanPhase (exampleCfg True) (Root (Directory twoLevelTree None)))) =
     [\<lparr>SourcePath = ''/source/a.txt'', DestPath = ''/dest/Documents/a.txt'', DryRun = False\<rparr>,
      \<lparr>SourcePath = ''/source/sub/b.txt'', DestPath = ''/dest/Documents/b.txt'', DryRun = False\<rparr>]
   \<and> map SourcePath (filesToMove (snd (scanPhase (exampleCfg False) (Root (Directory twoLevelTree None)))))
       = [''/source/a.txt'']
   \<and> map SourcePath (filesToMove (snd (scanPhase (exampleCfg True) (Root (Directory twoLevelTree None)))))
       = [''/source/a.txt'', ''/source/sub/b.txt'']"
proof -
  have n: "\<not> Recursive (exampleCfg False)" and r: "Recursive (exampleCfg True)"
    by (simp_all add: exampleCfg_def)
  have src: "SourceDir (exampleCfg False) = absPath [''source'']"
    by (simp add: exampleCfg_def absPath_def)
  have nm: "list_all simpleName [''source'']" "simpleName ''a.txt''" "simpleName ''sub''"
    by (simp_all add: simpleName_def)
  from src nm
    c7_recursive_flag [where cfg = "exampleCfg False" and els = "[''source'']" and name = "''a.txt''"]
    c7_recursive_flag [where cfg = "exampleCfg False" and els = "[''source'']" and name = "''sub''"]
  have h: "\<forall>nd\<in>set twoLevelTree. IsDir (snd nd) \<longrightarrow>
             Join [SourceDir (exampleCfg False), fst nd] \<noteq> SourceDir (exampleCfg False)"
    by (simp add: twoLevelTree_def)
  have d: "filter (\<lambda>p. \<not> HasPrefix p (DestDir (exampleCfg False)))
             (directFiles (SourceDir (exampleCfg False)) twoLevelTree) = [''/source/a.txt'']"
    by code_simp
  have f: "filter (\<lambda>p. \<not> HasPrefix p (DestDir (exampleCfg True)))
             (filePaths (SourceDir (exampleCfg True)) (Directory twoLevelTree None))
           = [''/source/a.txt'', ''/source/sub/b.txt'']"
    by code_simp
  have v: "map fst (visited (snd (scanPhase (exampleCfg False) (Root (Directory twoLevelTree None))))) =
     [''/source'', ''/source/a.txt'', ''/source/sub'']"
    by code_simp
  have a: "filesToMove (snd (scanPhase (exampleCfg False) (Root (Directory twoLevelTree None)))) =
     [\<lparr>SourcePath = ''/source/a.txt'', DestPath = ''/dest/Documents/a.txt'', DryRun = False\<rparr>]"
    by code_simp
  have b: "filesToMove (snd (scanPhase (exampleCfg True) (Root (Directory twoLevelTree None)))) =
     [\<lparr>SourcePath = ''/source/a.txt'', DestPath = ''/dest/Documents/a.txt'', DryRun = False\<rparr>,
      \<lparr>SourcePath = ''/source/sub/b.txt'', DestPath = ''/dest/Documents/b.txt'', DryRun = False\<rparr>]"
    by code_simp
  from n h d
    c7_recursive_flag [where cfg = "exampleCfg False" and ents = twoLevelTree and rerr = None]
  have one: "map SourcePath (filesToMove (snd (scanPhase (exampleCfg False) (Root (Directory twoLevelTree None)))))
       = [''/source/a.txt'']" by simp
  from r f
    c7_recursive_flag [where cfg = "exampleCfg True" and t = "Directory twoLevelTree None"]
  have two: "map SourcePath (filesToMove (snd (scanPhase (exampleCfg True) (Root (Directory twoLevelTree None)))))
       = [''/source/a.txt'', ''/source/sub/b.txt'']" by simp
  from a b v one two show ?thesis by simp
qed

section \<open>One outcome for every planned move\<close>

lemma ensureDestDir_sent:
  "ensureDestDir env fm s = (s1, out, pr, ex) \<Longrightarrow>
     (case ex of None \<Rightarrow> out = [] | Some (Panicked r) \<Rightarrow> out = []
      | Some (Returned e) \<Rightarrow> out = [\<lparr>Moved = 0, Errored = 1\<rparr>])"
  by (auto simp: ensureDestDir_def Let_def split: go.splits if_splits option.splits prod.splits)

lemma resolveCollision_sent:
  "resolveCollision env fm s = (final, out, pr, ex) \<Longrightarrow>
     (case ex of None \<Rightarrow> out = [] | Some (Panicked r) \<Rightarrow> out = []
      | Some (Returned e) \<Rightarrow> out = [\<lparr>Moved = 0, Errored = 1\<rparr>])"
  by (auto simp: resolveCollision_def Let_def split: go.splits stat_result.splits)

lemma performMove_sent:
  "performMove env fm quiet final s = (s2, out, pr, ex) \<Longrightarrow>
     (case ex of Panicked r \<Rightarrow> out = [] | Returned e \<Rightarrow> oneOutcome out)"
  by (auto simp: performMove_def oneOutcome_def split: go.splits if_splits option.splits prod.splits)

lemma moveFile_body_sent:
  assumes "moveFile_body env fm quiet s = (s', out, pr, ex)"
  shows "case ex of Panicked r \<Rightarrow> out = [] | Returned e \<Rightarrow> oneOutcome out"
proof -
  obtain s1 out1 pr1 ex1 where e1: "ensureDestDir env fm s = (s1, out1, pr1, ex1)"
    by (metis prod_cases4)
  note a1 = ensureDestDir_sent [OF e1]
  show ?thesis
  proof (cases ex1)
    case (Some x)
    with assms e1 a1 show ?thesis
      by (cases x) (auto simp: moveFile_body_def oneOutcome_def)
  next
    case None
    obtain final out2 pr2 ex2 where e2: "resolveCollision env fm s1 = (final, out2, pr2, ex2)"
      by (metis prod_cases4)
    note a2 = resolveCollision_sent [OF e2]
    show ?thesis
    proof (cases ex2)
      case (Some x)
      with assms e1 a1 e2 a2 None show ?thesis
        by (cases x) (auto simp: moveFile_body_def oneOutcome_def)
    next
      case n2: None
      obtain s2 out3 pr3 ex3 where e3: "performMove env fm quiet final s1 = (s2, out3, pr3, ex3)"
        by (metis prod_cases4)
      note a3 = performMove_sent [OF e3]
      from assms e1 a1 e2 a2 None n2 e3 a3 show ?thesis
        by (auto simp: moveFile_body_def)
    qed
  qed
qed

lemma moveFile_sent: "oneOutcome (sent (moveFile env fm quiet s))"
proof -
  obtain s' out pr ex where b: "moveFile_body env fm quiet s = (s', out, pr, ex)"
    by (metis prod_cases4)
  from moveFile_body_sent [OF b] b show ?thesis
    by (cases ex) (auto simp: moveFile_def oneOutcome_def)
qed

lemma collect_add:
  "collect out (m, e) = (m + fst (collect out (0, 0)), e + snd (collect out (0, 0)))"
proof (induction out arbitrary: m e)
  case Nil
  show ?case by simp
next
  case (Cons u out)
  show ?case
    using Cons.IH [of "m + Moved u" "e + Errored u"] Cons.IH [of "Moved u" "Errored u"]
    by simp
qed

lemma dispatch_sent:
  "dispatch env quiet fms s = (s', out, pr) \<Longrightarrow>
     length out = length fms \<and> fst (collect out (0, 0)) + snd (collect out (0, 0)) = int (length fms)"
proof (induction fms arbitrary: s s' out pr)
  case Nil
  then show ?case by simp
next
  case (Cons fm fms)
  obtain s2 out2 pr2 where d: "dispatch env quiet fms (fs_after (moveFile env fm quiet s)) = (s2, out2, pr2)"
    by (metis prod_cases3)
  from Cons.IH [OF d] have ih: "length out2 = length fms"
    "fst (collect out2 (0, 0)) + snd (collect out2 (0, 0)) = int (length fms)" by simp_all
  from Cons.prems d have out: "out = sent (moveFile env fm quiet s) @ out2"
    by (simp add: Let_def)
  have one: "oneOutcome (sent (moveFile env fm quiet s))" by (rule moveFile_sent)
  from one out ih show ?case
    unfolding oneOutcome_def
    by (auto simp: collect_add [of out2 1 0] collect_add [of out2 0 1])
qed

text \<open>
  Claim C1. Every call of \<open>moveFile\<close> sends exactly one update on \<open>progressChan\<close>,
  \<open>{Moved: 1}\<close> or \<open>{Errored: 1}\<close>, whatever the file system answers and also when
  a call panics; so the updates of a dispatch are as many as the moves dispatched, and
  the totals that the collector of \<open>main\<close> adds up, moved plus errored, equal the
  number of planned moves that \<open>OrganizeFiles\<close> returns.
\<close>

theorem c1_exactly_one_outcome:
  "oneOutcome (sent (moveFile env fm quiet s))
   \<and> length (fst (snd (dispatch env quiet queue s))) = length queue
   \<and> fst (collect (fst (snd (dispatch env quiet queue s))) (0, 0))
       + snd (collect (fst (snd (dispatch env quiet queue s))) (0, 0)) = int (length queue)
   \<and> (\<exists>res. OrganizeFiles env cfg r s = Ret res
        \<and> fst (collect (r_progress res) (0, 0)) + snd (collect (r_progress res) (0, 0))
            = r_totalToProcess res)"
proof -
  have d: "length (fst (snd (dispatch env quiet q s))) = length q
    \<and> fst (collect (fst (snd (dispatch env quiet q s))) (0, 0))
        + snd (collect (fst (snd (dispatch env quiet q s))) (0, 0)) = int (length q)" for q quiet
    using dispatch_sent [of env quiet q s] by (cases "dispatch env quiet q s") simp
  from OrganizeFiles_returns [of env cfg r s] obtain res where
    res: "OrganizeFiles env cfg r s = Ret res"
      "r_totalToProcess res = int (length (filesToMove (snd (scanPhase cfg r))))"
      "r_progress res =
         (if filesToMove (snd (scanPhase cfg r)) = [] then []
          else fst (snd (dispatch env (Quiet cfg) (filesToMove (snd (scanPhase cfg r))) s)))"
    by blast
  have o: "fst (collect (r_progress res) (0, 0)) + snd (collect (r_progress res) (0, 0))
            = r_totalToProcess res"
  proof (cases "filesToMove (snd (scanPhase cfg r)) = []")
    case True
    with res show ?thesis by simp
  next
    case False
    with res d [of "Quiet cfg" "filesToMove (snd (scanPhase cfg r))"] show ?thesis by simp
  qed
  from moveFile_sent [of env fm quiet s] d [of quiet queue] res(1) o show ?thesis by blast
qed

theorem c1_exactly_one_outcome_witness:
  "sent (moveFile memEnv mkdirFailureMove False memStart) = [\<lparr>Moved = 0, Errored = 1\<rparr>]
   \<and> sent (moveFile memEnv statFailureMove False memStart) = [\<lparr>Moved = 0, Errored = 1\<rparr>]
   \<and> sent (moveFile memEnv renameFailureMove False memStart) = [\<lparr>Moved = 0, Errored = 1\<rparr>]
   \<and> sent (moveFile memEnv dryRunMove False memStart) = [\<lparr>Moved = 1, Errored = 0\<rparr>]
   \<and> sent (moveFile memEnv successMove False memStart) = [\<lparr>Moved = 1, Errored = 0\<rparr>]
   \<and> sent (moveFile memEnv panicMove False memStart) = [\<lparr>Moved = 0, Errored = 1\<rparr>]
   \<and> collect (fst (snd (dispatch memEnv False sampleQueue memStart))) (0, 0) = (2, 4)
   \<and> length (fst (snd (dispatch memEnv False sampleQueue memStart))) = 6"
proof -
  have a: "sent (moveFile memEnv mkdirFailureMove False memStart) = [\<lparr>Moved = 0, Errored = 1\<rparr>]"
    by code_simp
  have b: "sent (moveFile memEnv statFailureMove False memStart) = [\<lparr>Moved = 0, Errored = 1\<rparr>]"
    by code_simp
  have c: "sent (moveFile memEnv renameFailureMove False memStart) = [\<lparr>Moved = 0, Errored = 1\<rparr>]"
    by code_simp
  have d: "sent (moveFile memEnv dryRunMove False memStart) = [\<lparr>Moved = 1, Errored = 0\<rparr>]"
    by code_simp
  have e: "sent (moveFile memEnv successMove False memStart) = [\<lparr>Moved = 1, Errored = 0\<rparr>]"
    by code_simp
  have f: "sent (moveFile memEnv panicMove False memStart) = [\<lparr>Moved = 0, Errored = 1\<rparr>]"
    by code_simp
  have g: "collect (fst (snd (dispatch memEnv False sampleQueue memStart))) (0, 0) = (2, 4)"
    by code_simp
  have h: "length sampleQueue = 6" by (simp add: sampleQueue_def)
  from a b c d e f g h
    c1_exactly_one_outcome [of memEnv dryRunMove False memStart sampleQueue]
  show ?thesis by simp
qed

section \<open>Dry runs\<close>

lemma ensureDestDir_dry:
  "DryRun fm \<Longrightarrow> ensureDestDir env fm s =
     (case os_Stat env s (Dir (DestPath fm)) of
        Panic r \<Rightarrow> (s, [], [], Some (Panicked r))
      | Ret st \<Rightarrow>
          (s, [], (if st = StatNotExist
                   then [''DRY RUN: Would create directory: '' @ Dir (DestPath fm)] else []), None))"
  by (simp add: ensureDestDir_def Let_def split: go.splits)

lemma performMove_dry:
  "DryRun fm \<Longrightarrow> performMove env fm quiet final s =
     (s, [\<lparr>Moved = 1, Errored = 0\<rparr>],
      (if \<not> quiet then [moveLine ''DRY RUN: Would move '' fm final] else []), Returned None)"
  by (simp add: performMove_def)

lemma resolveCollision_env:
  "resolveCollision (env\<lparr>os_MkdirAll := mk, os_Rename := rn\<rparr>) fm s = resolveCollision env fm s"
  by (simp add: resolveCollision_def split: go.splits stat_result.splits)

lemma moveFile_body_dry:
  assumes "DryRun fm"
  shows "fst (moveFile_body env fm quiet s) = s"
    and "moveFile_body (env\<lparr>os_MkdirAll := mk, os_Rename := rn\<rparr>) fm quiet s
           = moveFile_body env fm quiet s"
  using assms
  by (auto simp: moveFile_body_def ensureDestDir_dry performMove_dry resolveCollision_env
      split: go.splits prod.splits option.splits)

text \<open>
  Claim C8. A planned move with the dry-run flag leaves the file system as it was: the
  run never calls \<open>os.MkdirAll\<close> or \<open>os.Rename\<close> (replacing them changes nothing), also
  when the destination directory is missing. The directory check and the collision check
  still run: the run reports the directory it would create and the renamed target it
  would use, a failing collision check still gives \<open>{Errored: 1}\<close>, and a simulation
  that succeeds sends \<open>{Moved: 1}\<close>.
\<close>

theorem c8_dry_run:
  "DryRun fm \<longrightarrow>
     fs_after (moveFile env fm quiet s) = s
     \<and> moveFile (env\<lparr>os_MkdirAll := mk, os_Rename := rn\<rparr>) fm quiet s = moveFile env fm quiet s
     \<and> (os_Stat env s (Dir (DestPath fm)) = Ret st \<and> os_Stat env s (DestPath fm) = Ret StatNotExist \<longrightarrow>
          sent (moveFile env fm quiet s) = [\<lparr>Moved = 1, Errored = 0\<rparr>]
          \<and> returned (moveFile env fm quiet s) = None
          \<and> printed (moveFile env fm quiet s) =
              (if st = StatNotExist
               then [''DRY RUN: Would create directory: '' @ Dir (DestPath fm)] else []) @
              (if \<not> quiet then [moveLine ''DRY RUN: Would move '' fm (DestPath fm)] else []))
     \<and> (os_Stat env s (Dir (DestPath fm)) = Ret st \<and> os_Stat env s (DestPath fm) = Ret StatOk \<longrightarrow>
          sent (moveFile env fm quiet s) = [\<lparr>Moved = 1, Errored = 0\<rparr>]
          \<and> returned (moveFile env fm quiet s) = None
          \<and> printed (moveFile env fm quiet s) =
              (if st = StatNotExist
               then [''DRY RUN: Would create directory: '' @ Dir (DestPath fm)] else []) @
              [''COLLISION: Renaming '' @ [CHR 0x27] @ Base (DestPath fm) @ [CHR 0x27] @ '' to '' @
                 [CHR 0x27] @
                 Base (collisionPath fm (Format_20060102_150405 (time_Now env s))) @ [CHR 0x27]] @
              (if \<not> quiet
               then [moveLine ''DRY RUN: Would move '' fm
                       (collisionPath fm (Format_20060102_150405 (time_Now env s)))]
               else []))
     \<and> (os_Stat env s (Dir (DestPath fm)) = Ret st \<and> os_Stat env s (DestPath fm) = Ret (StatError e) \<longrightarrow>
          sent (moveFile env fm quiet s) = [\<lparr>Moved = 0, Errored = 1\<rparr>]
          \<and> returned (moveFile env fm quiet s) \<noteq> None)"
proof (intro impI conjI)
  assume d: "DryRun fm"
  obtain s' out pr ex where b: "moveFile_body env fm quiet s = (s', out, pr, ex)"
    by (metis prod_cases4)
  from moveFile_body_dry(1) [OF d, of env quiet s] b have "s' = s" by simp
  with b show "fs_after (moveFile env fm quiet s) = s"
    by (cases ex) (simp_all add: moveFile_def)
  show "moveFile (env\<lparr>os_MkdirAll := mk, os_Rename := rn\<rparr>) fm quiet s = moveFile env fm quiet s"
    by (simp only: moveFile_def moveFile_body_dry(2) [OF d])
next
  assume d: "DryRun fm"
    and a: "os_Stat env s (Dir (DestPath fm)) = Ret st \<and> os_Stat env s (DestPath fm) = Ret StatNotExist"
  then have m: "moveFile env fm quiet s =
      \<lparr>fs_after = s, sent = [\<lparr>Moved = 1, Errored = 0\<rparr>],
       printed = (if st = StatNotExist
               then [''DRY RUN: Would create directory: '' @ Dir (DestPath fm)] else []) @
              (if \<not> quiet then [moveLine ''DRY RUN: Would move '' fm (DestPath fm)] else []),
       returned = None\<rparr>"
    by (simp add: moveFile_def moveFile_body_def ensureDestDir_dry performMove_dry resolveCollision_def)
  show "sent (moveFile env fm quiet s) = [\<lparr>Moved = 1, Errored = 0\<rparr>]"
    "returned (moveFile env fm quiet s) = None"
    "printed (moveFile env fm quiet s) =
              (if st = StatNotExist
               then [''DRY RUN: Would create directory: '' @ Dir (DestPath fm)] else []) @
              (if \<not> quiet then [moveLine ''DRY RUN: Would move '' fm (DestPath fm)] else [])"
    by (simp_all only: m move_run.simps)
next
  assume d: "DryRun fm"
    and a: "os_Stat env s (Dir (DestPath fm)) = Ret st \<and> os_Stat env s (DestPath fm) = Ret StatOk"
  then have m: "moveFile env fm quiet s =
      \<lparr>fs_after = s, sent = [\<lparr>Moved = 1, Errored = 0\<rparr>],
       printed = (if st = StatNotExist
               then [''DRY RUN: Would create directory: '' @ Dir (DestPath fm)] else []) @
              [''COLLISION: Renaming '' @ [CHR 0x27] @ Base (DestPath fm) @ [CHR 0x27] @ '' to '' @
                 [CHR 0x27] @
                 Base (collisionPath fm (Format_20060102_150405 (time_Now env s))) @ [CHR 0x27]] @
              (if \<not> quiet
               then [moveLine ''DRY RUN: Would move '' fm
                       (collisionPath fm (Format_20060102_150405 (time_Now env s)))]
               else []),
       returned = None\<rparr>"
    by (simp add: moveFile_def moveFile_body_def ensureDestDir_dry performMove_dry
        resolveCollision_def Let_def)
  show "sent (moveFile env fm quiet s) = [\<lparr>Moved = 1, Errored = 0\<rparr>]"
    "returned (moveFile env fm quiet s) = None"
    "printed (moveFile env fm quiet s) =
              (if st = StatNotExist
               then [''DRY RUN: Would create directory: '' @ Dir (DestPath fm)] else []) @
              [''COLLISION: Renaming '' @ [CHR 0x27] @ Base (DestPath fm) @ [CHR 0x27] @ '' to '' @
                 [CHR 0x27] @
                 Base (collisionPath fm (Format_20060102_150405 (time_Now env s))) @ [CHR 0x27]] @
              (if \<not> quiet
               then [moveLine ''DRY RUN: Would move '' fm
                       (collisionPath fm (Format_20060102_150405 (time_Now env s)))]
               else [])"
    by (simp_all only: m move_run.simps)
next
  assume d: "DryRun fm"
    and a: "os_Stat env s (Dir (DestPath fm)) = Ret st \<and> os_Stat env s (DestPath fm) = Ret (StatError e)"
  then show "sent (moveFile env fm quiet s) = [\<lparr>Moved = 0, Errored = 1\<rparr>]"
    "returned (moveFile env fm quiet s) \<noteq> None"
    by (simp_all add: moveFile_def moveFile_body_def ensureDestDir_dry resolveCollision_def)
qed

theorem c8_dry_run_witness:
  "fs_after (moveFile memEnv dryRunMove False memStart) = memStart
   \<and> sent (moveFile memEnv dryRunMove False memStart) = [\<lparr>Moved = 1, Errored = 0\<rparr>]
   \<and> printed (moveFile memEnv dryRunMove False memStart) =
       [''COLLISION: Renaming '' @ [CHR 0x27] @ ''report.pdf'' @ [CHR 0x27] @ '' to '' @
          [CHR 0x27] @ ''report_20250704_153000.pdf'' @ [CHR 0x27],
        moveLine ''DRY RUN: Would move '' dryRunMove ''/dest/Documents/report_20250704_153000.pdf'']
   \<and> fs_after (moveFile memEnv (successMove\<lparr>DryRun := True\<rparr>) False memStart) = memStart
   \<and> printed (moveFile memEnv (successMove\<lparr>DryRun := True\<rparr>) False memStart) =
       [''DRY RUN: Would create directory: /dest/Images'',
        moveLine ''DRY RUN: Would move '' successMove ''/dest/Images/a.jpg'']
   \<and> mem_dirs (fs_after (moveFile memEnv successMove False memStart)) =
       ''/dest/Images'' # mem_dirs memStart
   \<and> map fst (mem_files (fs_after (moveFile memEnv successMove False memStart))) \<noteq>
       map fst (mem_files memStart)"
proof -
  have d1: "DryRun dryRunMove" by (simp add: dryRunMove_def)
  have d2: "DryRun (successMove\<lparr>DryRun := True\<rparr>)" by simp
  have st1: "os_Stat memEnv memStart (Dir (DestPath dryRunMove)) = Ret StatOk
      \<and> os_Stat memEnv memStart (DestPath dryRunMove) = Ret StatOk"
    by code_simp
  have st2: "os_Stat memEnv memStart (Dir (DestPath (successMove\<lparr>DryRun := True\<rparr>))) = Ret StatNotExist
      \<and> os_Stat memEnv memStart (DestPath (successMove\<lparr>DryRun := True\<rparr>)) = Ret StatNotExist"
    by code_simp
  have n1: "Base (DestPath dryRunMove) = ''report.pdf''"
    "collisionPath dryRunMove (Format_20060102_150405 (time_Now memEnv memStart))
       = ''/dest/Documents/report_20250704_153000.pdf''"
    "Base ''/dest/Documents/report_20250704_153000.pdf'' = ''report_20250704_153000.pdf''"
    by code_simp+
  have n2: "Dir (DestPath (successMove\<lparr>DryRun := True\<rparr>)) = ''/dest/Images''"
    "DestPath (successMove\<lparr>DryRun := True\<rparr>) = ''/dest/Images/a.jpg''"
    "moveLine ''DRY RUN: Would move '' (successMove\<lparr>DryRun := True\<rparr>) ''/dest/Images/a.jpg''
      = moveLine ''DRY RUN: Would move '' successMove ''/dest/Images/a.jpg''"
    by code_simp+
  have real: "mem_dirs (fs_after (moveFile memEnv successMove False memStart)) =
       ''/dest/Images'' # mem_dirs memStart"
     "map fst (mem_files (fs_after (moveFile memEnv successMove False memStart))) \<noteq>
       map fst (mem_files memStart)"
    by code_simp+
  from c8_dry_run [of dryRunMove memEnv False memStart _ _ StatOk] d1 st1 n1
  have a: "fs_after (moveFile memEnv dryRunMove False memStart) = memStart
   \<and> sent (moveFile memEnv dryRunMove False memStart) = [\<lparr>Moved = 1, Errored = 0\<rparr>]
   \<and> printed (moveFile memEnv dryRunMove False memStart) =
       [''COLLISION: Renaming '' @ [CHR 0x27] @ ''report.pdf'' @ [CHR 0x27] @ '' to '' @
          [CHR 0x27] @ ''report_20250704_153000.pdf'' @ [CHR 0x27],
        moveLine ''DRY RUN: Would move '' dryRunMove ''/dest/Documents/report_20250704_153000.pdf'']"
    by simp
  from c8_dry_run [of "successMove\<lparr>DryRun := True\<rparr>" memEnv False memStart _ _ StatNotExist] d2 st2 n2
  have b: "fs_after (moveFile memEnv (successMove\<lparr>DryRun := True\<rparr>) False memStart) = memStart
   \<and> printed (moveFile memEnv (successMove\<lparr>DryRun := True\<rparr>) False memStart) =
       [''DRY RUN: Would create directory: /dest/Images'',
        moveLine ''DRY RUN: Would move '' successMove ''/dest/Images/a.jpg'']"
    by simp
  from a b real show ?thesis by blast
qed

section \<open>Category resolution\<close>










section \<open>Collisions\<close>












end
